theory Spec2Isabelle
  imports Main "HOL-Library.Word"
begin

section \<open>JavaScript strings\<close>

text \<open>
  A JavaScript string is a sequence of UTF-16 code units, and every string operation the
  services use (\<^verbatim>\<open>trim\<close>, \<^verbatim>\<open>split\<close>, \<^verbatim>\<open>substring\<close>, \<^verbatim>\<open>endsWith\<close>,
  \<^verbatim>\<open>includes\<close>, regular expressions without the \<^verbatim>\<open>u\<close> flag) works on code units.
  A character outside the Basic Multilingual Plane is a pair of surrogate code units.
\<close>

type_synonym jschar = "16 word"
type_synonym jsstring = "jschar list"

definition js :: "string \<Rightarrow> jsstring" where
  \<comment> \<open>an ASCII literal of the source, as code units\<close>
  "js s = map (\<lambda>c. of_nat (of_char c)) s"

definition dquote :: jschar where
  \<comment> \<open>the double quote character\<close>
  "dquote = 0x22"

definition isLineTerminator :: "jschar \<Rightarrow> bool" where
  \<comment> \<open>ECMAScript LineTerminator: LF, CR, LS, PS; the characters \<^verbatim>\<open>.\<close> does not match\<close>
  "isLineTerminator c = (c = 0x0A \<or> c = 0x0D \<or> c = 0x2028 \<or> c = 0x2029)"

definition isWhiteSpace :: "jschar \<Rightarrow> bool" where
  \<comment> \<open>the class \<^verbatim>\<open>\s\<close>, which is also what \<^verbatim>\<open>trim\<close> strips: ECMAScript WhiteSpace
      (TAB, VT, FF, the space separators, ZWNBSP) and LineTerminator\<close>
  "isWhiteSpace c =
     (c = 0x09 \<or> c = 0x0B \<or> c = 0x0C \<or> c = 0x20 \<or> c = 0xA0 \<or> c = 0x1680 \<or>
      (0x2000 \<le> c \<and> c \<le> 0x200A) \<or> c = 0x202F \<or> c = 0x205F \<or> c = 0x3000 \<or>
      c = 0xFEFF \<or> isLineTerminator c)"

definition isWordChar :: "jschar \<Rightarrow> bool" where
  \<comment> \<open>the class \<^verbatim>\<open>\w\<close>: ASCII letters, digits and the underscore\<close>
  "isWordChar c =
     ((0x41 \<le> c \<and> c \<le> 0x5A) \<or> (0x61 \<le> c \<and> c \<le> 0x7A) \<or>
      (0x30 \<le> c \<and> c \<le> 0x39) \<or> c = 0x5F)"

definition trim :: "jsstring \<Rightarrow> jsstring" where
  "trim s = rev (dropWhile isWhiteSpace (rev (dropWhile isWhiteSpace s)))"

definition startsWith :: "jsstring \<Rightarrow> jsstring \<Rightarrow> bool" where
  "startsWith s p = (take (length p) s = p)"

definition endsWith :: "jsstring \<Rightarrow> jsstring \<Rightarrow> bool" where
  "endsWith s p = (length p \<le> length s \<and> drop (length s - length p) s = p)"

fun includes_js :: "jsstring \<Rightarrow> jsstring \<Rightarrow> bool" where
  "includes_js [] p = (p = [])"
| "includes_js (c # cs) p = (startsWith (c # cs) p \<or> includes_js cs p)"

fun split :: "jschar \<Rightarrow> jsstring \<Rightarrow> jsstring list" where
  \<comment> \<open>\<^verbatim>\<open>s.split(sep)\<close> for a one-character separator; the empty string gives one empty piece\<close>
  "split sep [] = [[]]"
| "split sep (c # cs) =
     (if c = sep then [] # split sep cs
      else (case split sep cs of [] \<Rightarrow> [[c]] | x # xs \<Rightarrow> (c # x) # xs))"

definition substring0 :: "jsstring \<Rightarrow> nat \<Rightarrow> jsstring" where
  \<comment> \<open>\<^verbatim>\<open>s.substring(0, n)\<close>: the first n code units\<close>
  "substring0 s n = take n s"

definition stripPunctuation :: "jsstring \<Rightarrow> jsstring" where
  \<comment> \<open>\<^verbatim>\<open>s.replace(/[^\w\s]/g, '')\<close>\<close>
  "stripPunctuation s = filter (\<lambda>c. isWordChar c \<or> isWhiteSpace c) s"

definition digitChar :: "nat \<Rightarrow> jschar" where
  "digitChar d = of_nat (48 + d)"

fun decimal :: "nat \<Rightarrow> jsstring" where
  \<comment> \<open>a non-negative integer in a template literal\<close>
  "decimal n = (if n < 10 then [digitChar n] else decimal (n div 10) @ [digitChar (n mod 10)])"

declare decimal.simps [simp del]

definition toStringInt :: "int \<Rightarrow> jsstring" where
  \<comment> \<open>an integral number in a template literal (plain decimal, as JavaScript prints
      integers of magnitude below \<open>10\<^sup>2\<^sup>1\<close>)\<close>
  "toStringInt i = (if i < 0 then 0x2D # decimal (nat (- i)) else decimal (nat i))"

subsection \<open>Errors\<close>

datatype error =
    AxiosError      \<comment> \<open>a rejected HTTP request: network failure, timeout, abort, error status\<close>
  | NoContent       \<comment> \<open>\<^verbatim>\<open>new Error('No content received from model')\<close>\<close>
  | SyntaxError     \<comment> \<open>thrown by \<^verbatim>\<open>JSON.parse\<close>\<close>
  | TypeError       \<comment> \<open>a property read on null or undefined, a call of a missing method\<close>
  | URIError        \<comment> \<open>thrown by \<^verbatim>\<open>encodeURIComponent\<close> on an unpaired surrogate\<close>

subsection \<open>encodeURIComponent\<close>

definition uriUnreserved :: "jschar \<Rightarrow> bool" where
  \<comment> \<open>letters, digits and \<^verbatim>\<open>- _ . ! ~ * ' ( )\<close>\<close>
  "uriUnreserved c =
     ((0x41 \<le> c \<and> c \<le> 0x5A) \<or> (0x61 \<le> c \<and> c \<le> 0x7A) \<or> (0x30 \<le> c \<and> c \<le> 0x39) \<or>
      c = 0x2D \<or> c = 0x5F \<or> c = 0x2E \<or> c = 0x21 \<or> c = 0x7E \<or> c = 0x2A \<or> c = 0x27 \<or>
      c = 0x28 \<or> c = 0x29)"

definition isHighSurrogate :: "jschar \<Rightarrow> bool" where
  "isHighSurrogate c = (0xD800 \<le> c \<and> c \<le> 0xDBFF)"

definition isLowSurrogate :: "jschar \<Rightarrow> bool" where
  "isLowSurrogate c = (0xDC00 \<le> c \<and> c \<le> 0xDFFF)"

definition hexDigit :: "nat \<Rightarrow> jschar" where
  "hexDigit d = (if d < 10 then of_nat (48 + d) else of_nat (55 + d))"

definition percentOctet :: "nat \<Rightarrow> jsstring" where
  "percentOctet b = [0x25, hexDigit (b div 16), hexDigit (b mod 16)]"

definition utf8 :: "nat \<Rightarrow> nat list" where
  "utf8 v =
     (if v < 0x80 then [v]
      else if v < 0x800 then [0xC0 + v div 64, 0x80 + v mod 64]
      else if v < 0x10000 then [0xE0 + v div 4096, 0x80 + (v div 64) mod 64, 0x80 + v mod 64]
      else [0xF0 + v div 262144, 0x80 + (v div 4096) mod 64, 0x80 + (v div 64) mod 64,
            0x80 + v mod 64])"

definition percentEncode :: "nat \<Rightarrow> jsstring" where
  "percentEncode v = concat (map percentOctet (utf8 v))"

fun encodeURIComponent :: "jsstring \<Rightarrow> error + jsstring" where
  "encodeURIComponent [] = Inr []"
| "encodeURIComponent (c # cs) =
     (if uriUnreserved c then
        (case encodeURIComponent cs of Inl e \<Rightarrow> Inl e | Inr r \<Rightarrow> Inr (c # r))
      else if isLowSurrogate c then Inl URIError
      else if \<not> isHighSurrogate c then
        (case encodeURIComponent cs of Inl e \<Rightarrow> Inl e
         | Inr r \<Rightarrow> Inr (percentEncode (unat c) @ r))
      else
        (case cs of
           [] \<Rightarrow> Inl URIError
         | d # ds \<Rightarrow>
             if \<not> isLowSurrogate d then Inl URIError
             else
               (case encodeURIComponent ds of Inl e \<Rightarrow> Inl e
                | Inr r \<Rightarrow>
                    Inr (percentEncode
                           ((unat c - 0xD800) * 0x400 + (unat d - 0xDC00) + 0x10000) @ r))))"

section \<open>Values and the runtime\<close>

text \<open>
  The result of \<^verbatim>\<open>JSON.parse\<close> has the static type \<^verbatim>\<open>any\<close>: the services read
  properties from it without checking what it is. A parsed value is therefore modelled
  as it is at run time. The fields of an object have distinct names.
\<close>

typedecl jsnumber \<comment> \<open>a JavaScript number; no service computes with one of a parsed value\<close>

datatype jsval =
    Undefined
  | Null
  | Bool bool
  | Num jsnumber
  | Str jsstring
  | Arr "jsval list"
  | Obj "(jsstring \<times> jsval) list"

text \<open>
  Two functions of the JavaScript runtime are parameters of the development:
  \<^verbatim>\<open>String.prototype.toLowerCase\<close> (the Unicode case mapping) and \<^verbatim>\<open>JSON.parse\<close>,
  where \<open>None\<close> stands for the \<^verbatim>\<open>SyntaxError\<close> it throws.
\<close>

record runtime =
  toLowerCase :: "jsstring \<Rightarrow> jsstring"
  JSON_parse :: "jsstring \<Rightarrow> jsval option"

fun getProperty :: "jsval \<Rightarrow> jsstring \<Rightarrow> error + jsval" where
  \<comment> \<open>\<^verbatim>\<open>v.name\<close> for a name that is no built-in property of strings, arrays or
      \<^verbatim>\<open>Object.prototype\<close>: reading from null or undefined throws, a missing property
      reads as undefined\<close>
  "getProperty Undefined name = Inl TypeError"
| "getProperty Null name = Inl TypeError"
| "getProperty (Obj fs) name =
     (case map_of fs name of None \<Rightarrow> Inr Undefined | Some v \<Rightarrow> Inr v)"
| "getProperty v name = Inr Undefined"

section \<open>The recommendation client (aiService.ts)\<close>

subsection \<open>Extraction of the JSON text\<close>

text \<open>
  \<^verbatim>\<open>JSON_EXTRACT_REGEX = /```(?:json)?\s*([\s\S]*?)\s*```/\<close>, matched by a backtracking
  matcher in the order ECMAScript prescribes. The functions below are the parts of the
  pattern, the innermost first; each returns the text captured by the group, or
  \<open>None\<close> when the part cannot match.
\<close>

definition fence :: jsstring where
  "fence = js ''```''"

definition closesFence :: "jsstring \<Rightarrow> bool" where
  \<comment> \<open>\<^verbatim>\<open>\s*```\<close> at the start of r. The greedy \<^verbatim>\<open>\s*\<close> takes the whole run of white
      space; giving some of it back leaves a white-space character where a backtick is
      needed, so no shorter run matches either.\<close>
  "closesFence r = startsWith (dropWhile isWhiteSpace r) fence"

fun lazyCapture :: "jsstring \<Rightarrow> jsstring \<Rightarrow> jsstring option" where
  \<comment> \<open>\<^verbatim>\<open>([\s\S]*?)\s*```\<close>: the group, which matches any character, is extended one
      character at a time until the rest closes the fence; g is the text captured so far\<close>
  "lazyCapture g r =
     (if closesFence r then Some g
      else (case r of [] \<Rightarrow> None | c # cs \<Rightarrow> lazyCapture (g @ [c]) cs))"

declare lazyCapture.simps [simp del]

definition afterTag :: "jsstring \<Rightarrow> jsstring option" where
  \<comment> \<open>\<^verbatim>\<open>\s*([\s\S]*?)\s*```\<close>: the leading greedy \<^verbatim>\<open>\s*\<close> takes the whole run of white
      space. It is given back only when the rest of the pattern fails, that is when no
      fence follows, and then the rest fails after a shorter run as well.\<close>
  "afterTag r = lazyCapture [] (dropWhile isWhiteSpace r)"

definition matchFenceAt :: "jsstring \<Rightarrow> jsstring option" where
  \<comment> \<open>the whole pattern at the start of s: the optional group \<^verbatim>\<open>(?:json)?\<close> is tried
      first with the tag and then without it\<close>
  "matchFenceAt s =
     (if startsWith s fence then
        (let r = drop 3 s in
         if startsWith r (js ''json'') then
           (case afterTag (drop 4 r) of Some g \<Rightarrow> Some g | None \<Rightarrow> afterTag r)
         else afterTag r)
      else None)"

fun matchFence :: "jsstring \<Rightarrow> jsstring option" where
  \<comment> \<open>\<^verbatim>\<open>content.match(JSON_EXTRACT_REGEX)\<close>, reduced to \<^verbatim>\<open>jsonMatch[1]\<close>: the match
      that starts leftmost\<close>
  "matchFence s =
     (case matchFenceAt s of
        Some g \<Rightarrow> Some g
      | None \<Rightarrow> (case s of [] \<Rightarrow> None | c # cs \<Rightarrow> matchFence cs))"

declare matchFence.simps [simp del]

definition jsonString :: "jsstring \<Rightarrow> jsstring" where
  \<comment> \<open>\<^verbatim>\<open>jsonMatch ? jsonMatch[1] : content\<close>\<close>
  "jsonString content = (case matchFence content of Some g \<Rightarrow> g | None \<Rightarrow> content)"

definition extractJsonFromResponse :: "runtime \<Rightarrow> jsstring \<Rightarrow> error + jsval" where
  "extractJsonFromResponse rt content =
     (case JSON_parse rt (trim (jsonString content)) of
        None \<Rightarrow> Inl SyntaxError
      | Some v \<Rightarrow> Inr v)"

subsection \<open>The request to the model\<close>

record chat_message =
  content :: "jsstring option"

record chat_choice =
  message :: "chat_message option"

record chat_response =
  choices :: "chat_choice list"

record chat_request =
  model :: jsstring
  userContent :: jsstring
  timeout :: nat

definition MODEL :: jsstring where
  "MODEL = js ''meta-llama/llama-4-maverick:free''"

definition chatRequest :: "jsstring \<Rightarrow> nat \<Rightarrow> chat_request" where
  \<comment> \<open>the body and options of the one request (the system prompt, the sampling
      parameters and the headers are constants)\<close>
  "chatRequest q timeoutMs =
     \<lparr>model = MODEL,
      userContent = js ''Recommend books for: '' @ [dquote] @ q @ [dquote],
      timeout = timeoutMs\<rparr>"

definition messageContent :: "chat_response \<Rightarrow> jsstring option" where
  \<comment> \<open>\<^verbatim>\<open>response.data.choices[0]?.message?.content\<close>\<close>
  "messageContent response =
     (case choices response of
        [] \<Rightarrow> None
      | choice # _ \<Rightarrow> (case message choice of None \<Rightarrow> None | Some m \<Rightarrow> content m))"

definition getRecommendationsFromModel ::
  "runtime \<Rightarrow> (chat_request \<Rightarrow> error + chat_response) \<Rightarrow> jsstring \<Rightarrow> nat \<Rightarrow> error + jsval" where
  \<comment> \<open>\<open>post\<close> is \<^verbatim>\<open>axios.post\<close> to the chat-completion endpoint: a request that fails,
      times out or is aborted by the timer is \<open>Inl\<close>. The catch block logs and
      rethrows. The parsed value is returned as it is.\<close>
  "getRecommendationsFromModel rt post q timeoutMs =
     (case post (chatRequest q timeoutMs) of
        Inl e \<Rightarrow> Inl e
      | Inr response \<Rightarrow>
          (case messageContent response of
             None \<Rightarrow> Inl NoContent
           | Some text \<Rightarrow>
               if text = [] then Inl NoContent else extractJsonFromResponse rt text))"

subsection \<open>The cache\<close>

record cache_entry =
  data :: jsval
  timestamp :: int

type_synonym cache = "jsstring \<rightharpoonup> cache_entry"

definition CACHE_DURATION :: int where
  "CACHE_DURATION = 5 * 60 * 1000"

definition normalizedQuery :: "runtime \<Rightarrow> jsstring \<Rightarrow> jsstring" where
  \<comment> \<open>\<^verbatim>\<open>query.toLowerCase().trim()\<close>\<close>
  "normalizedQuery rt q = trim (toLowerCase rt q)"

definition getAIRecommendations ::
  "runtime \<Rightarrow> (chat_request \<Rightarrow> error + chat_response) \<Rightarrow> int \<Rightarrow> int \<Rightarrow> cache \<Rightarrow> jsstring
     \<Rightarrow> (error + jsval) \<times> cache" where
  \<comment> \<open>\<open>now\<close> is \<^verbatim>\<open>Date.now()\<close> at the lookup and \<open>now'\<close> is \<^verbatim>\<open>Date.now()\<close> when the
      result is stored; the cache is the module's \<^verbatim>\<open>recommendationCache\<close>, returned
      as the call leaves it (no other call touches the cache in between)\<close>
  "getAIRecommendations rt post now now' c q =
     (let k = normalizedQuery rt q in
      case (case c k of
              Some cached \<Rightarrow> if now - timestamp cached < CACHE_DURATION then Some (data cached) else None
            | None \<Rightarrow> None) of
        Some d \<Rightarrow> (Inr d, c)
      | None \<Rightarrow>
          (case getRecommendationsFromModel rt post q 8000 of
             Inl e \<Rightarrow> (Inl e, c)
           | Inr result \<Rightarrow> (Inr result, c(k \<mapsto> \<lparr>data = result, timestamp = now'\<rparr>))))"

definition clearRecommendationCache :: "cache \<Rightarrow> cache" where
  "clearRecommendationCache c = Map.empty"

definition sweep :: "int \<Rightarrow> cache \<Rightarrow> cache" where
  \<comment> \<open>the body of the \<^verbatim>\<open>setInterval\<close> callback, run at time \<open>now\<close>\<close>
  "sweep now c =
     (\<lambda>k. case c k of
            None \<Rightarrow> None
          | Some v \<Rightarrow> if now - timestamp v > CACHE_DURATION then None else Some v)"

section \<open>The book service (bookService.ts)\<close>

subsection \<open>Remote services\<close>

text \<open>
  The remote services are functions from the request to the response body, or to the
  error axios rejects with. A response body has the fields the service reads, each
  possibly absent, with the types the service expects of them. Every function below
  returns, beside its result, the requests it has issued, in order.
\<close>

record ol_doc =
  cover_i :: "int option"
  isbn :: "jsstring list option"

record ol_response =
  docs :: "ol_doc list option"

record gb_imageLinks =
  large :: "jsstring option"
  medium :: "jsstring option"
  thumbnail :: "jsstring option"

record gb_volumeInfo =
  imageLinks :: "gb_imageLinks option"

record gb_item =
  volumeInfo :: "gb_volumeInfo option"

record pse_item =
  link :: "jsstring option"
  displayLink :: "jsstring option"
  snippet :: "jsstring option"

record 'a item_response =
  items :: "'a list option"

record pse_request =
  key :: jsstring
  cx :: jsstring
  q :: jsstring
  exactTerms :: jsstring

record network =
  openLibrarySearch :: "jsstring \<Rightarrow> error + ol_response"
  coverHead :: "jsstring \<Rightarrow> error + unit"
  googleBooksVolumes :: "jsstring \<Rightarrow> error + gb_item item_response"
  customSearch :: "pse_request \<Rightarrow> error + pse_item item_response"

datatype request =
    OpenLibraryGet jsstring      \<comment> \<open>GET openlibrary.org/search.json with this query\<close>
  | CoverHead jsstring           \<comment> \<open>HEAD on this cover URL\<close>
  | GoogleBooksGet jsstring      \<comment> \<open>GET googleapis.com/books/v1/volumes with this query\<close>
  | CustomSearchGet pse_request  \<comment> \<open>GET googleapis.com/customsearch/v1\<close>

record config =
  GOOGLE_API_KEY :: "jsstring option"
  GOOGLE_CX :: "jsstring option"

definition truthy :: "jsstring option \<Rightarrow> bool" where
  \<comment> \<open>a value that is a string or undefined, used as a condition: undefined and the
      empty string are false\<close>
  "truthy v = (case v of None \<Rightarrow> False | Some s \<Rightarrow> s \<noteq> [])"

subsection \<open>Cover images\<close>

fun firstCover :: "ol_doc list \<Rightarrow> jsstring option" where
  \<comment> \<open>the loop over \<^verbatim>\<open>data.docs\<close>: the first document with a cover id (a number other
      than 0)\<close>
  "firstCover [] = None"
| "firstCover (book # rest) =
     (case cover_i book of
        None \<Rightarrow> firstCover rest
      | Some i \<Rightarrow>
          if i \<noteq> 0 then Some (js ''https://covers.openlibrary.org/b/id/'' @ toStringInt i @ js ''-L.jpg'')
          else firstCover rest)"

definition hasIsbn :: "ol_doc \<Rightarrow> bool" where
  \<comment> \<open>\<^verbatim>\<open>book.isbn && book.isbn.length > 0\<close>\<close>
  "hasIsbn book = (case isbn book of None \<Rightarrow> False | Some l \<Rightarrow> l \<noteq> [])"

definition fetchBookCoverFromOpenLibrary ::
  "runtime \<Rightarrow> network \<Rightarrow> jsstring \<Rightarrow> jsstring \<Rightarrow> jsstring option \<times> request list" where
  "fetchBookCoverFromOpenLibrary rt net t a =
     (let cleanTitle = toLowerCase rt (trim (stripPunctuation t));
          cleanAuthor = toLowerCase rt (trim (stripPunctuation a));
          searchQuery = js ''title:'' @ [dquote] @ cleanTitle @ [dquote] @
                        js '' author:'' @ [dquote] @ cleanAuthor @ [dquote]
      in case openLibrarySearch net searchQuery of
           Inl e \<Rightarrow> (None, [OpenLibraryGet searchQuery])
         | Inr response \<Rightarrow>
             (case docs response of
                None \<Rightarrow> (None, [OpenLibraryGet searchQuery])
              | Some ds \<Rightarrow>
                  (case firstCover ds of
                     Some coverUrl \<Rightarrow> (Some coverUrl, [OpenLibraryGet searchQuery])
                   | None \<Rightarrow>
                       (case List.find hasIsbn ds of
                          None \<Rightarrow> (None, [OpenLibraryGet searchQuery])
                        | Some bookWithIsbn \<Rightarrow>
                            (case isbn bookWithIsbn of
                               Some (i # _) \<Rightarrow>
                                 (let coverUrl = js ''https://covers.openlibrary.org/b/isbn/'' @ i @
                                                 js ''-L.jpg''
                                  in case coverHead net coverUrl of
                                       Inr _ \<Rightarrow>
                                         (Some coverUrl,
                                          [OpenLibraryGet searchQuery, CoverHead coverUrl])
                                     | Inl e \<Rightarrow>
                                         (None, [OpenLibraryGet searchQuery, CoverHead coverUrl]))
                             | _ \<Rightarrow> (None, [OpenLibraryGet searchQuery]))))))"

fun firstImage :: "gb_item list \<Rightarrow> jsstring option" where
  \<comment> \<open>the loop over \<^verbatim>\<open>data.items\<close>: the first item with an image link, the largest
      variant it has\<close>
  "firstImage [] = None"
| "firstImage (item # rest) =
     (case (case volumeInfo item of None \<Rightarrow> None | Some vi \<Rightarrow> imageLinks vi) of
        None \<Rightarrow> firstImage rest
      | Some l \<Rightarrow>
          if truthy (large l) then large l
          else if truthy (medium l) then medium l
          else if truthy (thumbnail l) then thumbnail l
          else firstImage rest)"

definition fetchBookCoverFromGoogleBooks ::
  "network \<Rightarrow> jsstring \<Rightarrow> jsstring \<Rightarrow> jsstring option \<times> request list" where
  "fetchBookCoverFromGoogleBooks net t a =
     (let query = js ''intitle:'' @ [dquote] @ t @ [dquote] @
                  js '' inauthor:'' @ [dquote] @ a @ [dquote]
      in case googleBooksVolumes net query of
           Inl e \<Rightarrow> (None, [GoogleBooksGet query])
         | Inr response \<Rightarrow>
             (case items response of
                None \<Rightarrow> (None, [GoogleBooksGet query])
              | Some its \<Rightarrow> (firstImage its, [GoogleBooksGet query])))"

definition placeholderCover :: "jsstring \<Rightarrow> jsstring \<Rightarrow> error + jsstring" where
  \<comment> \<open>the last branch of \<^verbatim>\<open>fetchBookCover\<close>; it stands outside every try block\<close>
  "placeholderCover t a =
     (case encodeURIComponent (substring0 t 30) of
        Inl e \<Rightarrow> Inl e
      | Inr encodedTitle \<Rightarrow>
          (case encodeURIComponent (substring0 a 20) of
             Inl e \<Rightarrow> Inl e
           | Inr encodedAuthor \<Rightarrow>
               Inr (js ''https://via.placeholder.com/400x600/1e293b/f8fafc?text='' @
                    encodedTitle @ js ''+by+'' @ encodedAuthor)))"

definition fetchBookCover ::
  "runtime \<Rightarrow> network \<Rightarrow> jsstring \<Rightarrow> jsstring \<Rightarrow> (error + jsstring) \<times> request list" where
  "fetchBookCover rt net t a =
     (let (coverUrl, log1) = fetchBookCoverFromOpenLibrary rt net t a;
          (coverUrl, log2) =
             (if \<not> truthy coverUrl then
                (let (fromGoogle, l) = fetchBookCoverFromGoogleBooks net t a
                 in (fromGoogle, log1 @ l))
              else (coverUrl, log1))
      in case coverUrl of
           None \<Rightarrow> (placeholderCover t a, log2)
         | Some u \<Rightarrow> if u = [] then (placeholderCover t a, log2) else (Inr u, log2))"

subsection \<open>PDF links\<close>

definition mentionsPdf :: "runtime \<Rightarrow> jsstring option \<Rightarrow> bool" where
  \<comment> \<open>\<^verbatim>\<open>field?.toLowerCase().includes('pdf')\<close>: undefined, hence false, for an absent
      field\<close>
  "mentionsPdf rt field =
     (case field of None \<Rightarrow> False | Some s \<Rightarrow> includes_js (toLowerCase rt s) (js ''pdf''))"

fun scanItems :: "runtime \<Rightarrow> pse_item list \<Rightarrow> jsstring option" where
  \<comment> \<open>the loop over \<^verbatim>\<open>data.items\<close>, with its two tests on each item\<close>
  "scanItems rt [] = None"
| "scanItems rt (item # rest) =
     (case link item of
        None \<Rightarrow> scanItems rt rest
      | Some l \<Rightarrow>
          if l \<noteq> [] \<and> endsWith (toLowerCase rt l) (js ''.pdf'') then Some l
          else if l \<noteq> [] \<and>
                  (includes_js (toLowerCase rt l) (js ''.pdf'') \<or>
                   mentionsPdf rt (displayLink item) \<or> mentionsPdf rt (snippet item))
          then Some l
          else scanItems rt rest)"

definition pdfSearchRequest :: "jsstring \<Rightarrow> jsstring \<Rightarrow> jsstring \<Rightarrow> jsstring \<Rightarrow> pse_request" where
  \<comment> \<open>the parameters of the one request \<^verbatim>\<open>searchGoogleForPDF\<close> sends (\<^verbatim>\<open>num\<close> and
      \<^verbatim>\<open>safe\<close> are constants)\<close>
  "pdfSearchRequest apiKey engine bookTitle a =
     (let cleanTitle = trim (stripPunctuation bookTitle);
          cleanAuthor = trim (stripPunctuation a);
          query = [dquote] @ cleanTitle @ [dquote] @ js '' '' @ [dquote] @ cleanAuthor @
                  [dquote] @ js '' filetype:pdf''
      in \<lparr>key = apiKey, cx = engine, q = query, exactTerms = cleanTitle\<rparr>)"

definition searchGoogleForPDF ::
  "config \<Rightarrow> runtime \<Rightarrow> network \<Rightarrow> jsstring \<Rightarrow> jsstring \<Rightarrow> jsstring option \<times> request list" where
  \<comment> \<open>the whole body is one try block whose catch returns undefined\<close>
  "searchGoogleForPDF cfg rt net bookTitle a =
     (if \<not> truthy (GOOGLE_API_KEY cfg) \<or> \<not> truthy (GOOGLE_CX cfg) then (None, [])
      else
        (case (GOOGLE_API_KEY cfg, GOOGLE_CX cfg) of
           (Some apiKey, Some engine) \<Rightarrow>
             (let req = pdfSearchRequest apiKey engine bookTitle a
              in case customSearch net req of
                   Inl e \<Rightarrow> (None, [CustomSearchGet req])
                 | Inr response \<Rightarrow>
                     (case items response of
                        None \<Rightarrow> (None, [CustomSearchGet req])
                      | Some its \<Rightarrow> (scanItems rt its, [CustomSearchGet req])))
         | _ \<Rightarrow> (None, [])))"

subsection \<open>From a recommendation to a book\<close>

text \<open>
  \<^verbatim>\<open>recommendation.match(/^(.*?)\s+by\s+(.*)$/i)\<close>. The pattern is anchored at both
  ends, \<^verbatim>\<open>.\<close> matches every character but a line terminator, and the only
  characters that match \<^verbatim>\<open>b\<close> and \<^verbatim>\<open>y\<close> without regard to case are the two ASCII
  letters in either case.
\<close>

definition isBy :: "jschar \<Rightarrow> jschar \<Rightarrow> bool" where
  "isBy b y = ((b = 0x62 \<or> b = 0x42) \<and> (y = 0x79 \<or> y = 0x59))"

definition separatorTail :: "jsstring \<Rightarrow> jsstring option" where
  \<comment> \<open>\<^verbatim>\<open>\s+by\s+(.*)$\<close> at the start of r, returning the second group. Each greedy
      \<^verbatim>\<open>\s+\<close> takes the whole run of white space: after a shorter first run the next
      character is white space and not \<^verbatim>\<open>b\<close>; a shorter second run only moves white
      space into the group, which must reach the end of the string in any case and
      cannot if a line terminator follows the run.\<close>
  "separatorTail r =
     (if takeWhile isWhiteSpace r = [] then None
      else
        (case dropWhile isWhiteSpace r of
           b # y # r2 \<Rightarrow>
             if isBy b y \<and> takeWhile isWhiteSpace r2 \<noteq> [] \<and>
                \<not> list_ex isLineTerminator (dropWhile isWhiteSpace r2)
             then Some (dropWhile isWhiteSpace r2)
             else None
         | _ \<Rightarrow> None))"

fun lazyTitle :: "jsstring \<Rightarrow> jsstring \<Rightarrow> (jsstring \<times> jsstring) option" where
  \<comment> \<open>\<^verbatim>\<open>(.*?)\<close> followed by the rest of the pattern: the first group, g so far, is
      extended one character at a time, never over a line terminator, until the rest
      matches\<close>
  "lazyTitle g r =
     (case separatorTail r of
        Some g2 \<Rightarrow> Some (g, g2)
      | None \<Rightarrow>
          (case r of
             [] \<Rightarrow> None
           | c # cs \<Rightarrow> if isLineTerminator c then None else lazyTitle (g @ [c]) cs))"

declare lazyTitle.simps [simp del]

definition titleAuthorMatch :: "jsstring \<Rightarrow> (jsstring \<times> jsstring) option" where
  \<comment> \<open>the two groups of the match, or \<open>None\<close> for \<^verbatim>\<open>null\<close>\<close>
  "titleAuthorMatch recommendation = lazyTitle [] recommendation"

definition parsedTitle :: "jsstring \<Rightarrow> jsstring" where
  \<comment> \<open>\<^verbatim>\<open>const title\<close>\<close>
  "parsedTitle recommendation =
     (case titleAuthorMatch recommendation of
        Some (g1, g2) \<Rightarrow> trim g1
      | None \<Rightarrow> recommendation)"

definition authorString :: "jsstring \<Rightarrow> jsstring" where
  "authorString recommendation =
     (case titleAuthorMatch recommendation of
        Some (g1, g2) \<Rightarrow> trim g2
      | None \<Rightarrow> js ''Unknown Author'')"

definition parsedAuthor :: "jsstring \<Rightarrow> jsstring list" where
  \<comment> \<open>\<^verbatim>\<open>const author = authorString.split(',').map(a => a.trim())\<close>\<close>
  "parsedAuthor recommendation = map trim (split 0x2C (authorString recommendation))"

datatype book_source = AiRecommendation

record Book =
  id' :: jsstring
  title :: jsstring
  author :: "jsstring list"
  subjects :: "jsstring list"
  source :: book_source
  isAIRecommendation :: bool
  downloadUrl :: "jsstring option"
  coverUrl :: jsstring

definition convertAIRecommendationToBook ::
  "runtime \<Rightarrow> config \<Rightarrow> network \<Rightarrow> jsstring \<Rightarrow> nat \<Rightarrow> jsstring \<Rightarrow> error + Book" where
  \<comment> \<open>the two lookups run concurrently and share no state; the promise rejects when
      \<^verbatim>\<open>fetchBookCover\<close> does\<close>
  "convertAIRecommendationToBook rt cfg net recommendation index originalQuery =
     (let t = parsedTitle recommendation;
          a = authorString recommendation;
          pdf = fst (searchGoogleForPDF cfg rt net t a)
      in case fst (fetchBookCover rt net t a) of
           Inl e \<Rightarrow> Inl e
         | Inr cover \<Rightarrow>
             Inr \<lparr>id' = js ''ai-rec-'' @ decimal index,
                  title = t,
                  author = parsedAuthor recommendation,
                  subjects = [js ''AI recommended for: '' @ originalQuery],
                  source = AiRecommendation,
                  isAIRecommendation = True,
                  downloadUrl = pdf,
                  coverUrl = cover\<rparr>)"

subsection \<open>The search\<close>

record SearchResult =
  books :: "Book list"
  totalResults :: nat
  query :: jsstring
  enhancedQuery :: jsval
  searchTerms :: jsval
  aiRecommendationsCount :: nat
  pdfFoundCount :: nat
  booksWithoutPDFs :: "nat option"

fun awaitAll :: "(error + 'a) list \<Rightarrow> error + 'a list" where
  \<comment> \<open>\<^verbatim>\<open>await Promise.all(promises)\<close>: the results in the order of the promises, or the
      rejection of one of them\<close>
  "awaitAll [] = Inr []"
| "awaitAll (Inl e # ps) = Inl e"
| "awaitAll (Inr x # ps) = (case awaitAll ps of Inl e \<Rightarrow> Inl e | Inr xs \<Rightarrow> Inr (x # xs))"

definition convertEach ::
  "runtime \<Rightarrow> config \<Rightarrow> (nat \<Rightarrow> network) \<Rightarrow> jsstring \<Rightarrow> jsval list \<Rightarrow> (error + Book) list" where
  \<comment> \<open>\<^verbatim>\<open>recommendations.map((rec, index) => convertAIRecommendationToBook(rec, index, query))\<close>;
      an element that is no string has no \<^verbatim>\<open>match\<close> method. \<open>nets i\<close> is the network
      as the conversion of element i finds it.\<close>
  "convertEach rt cfg nets originalQuery recs =
     map (\<lambda>(index, r).
            case r of
              Str s \<Rightarrow> convertAIRecommendationToBook rt cfg (nets index) s index originalQuery
            | _ \<Rightarrow> Inl TypeError)
         (List.enumerate 0 recs)"

definition searchResultOf :: "jsstring \<Rightarrow> jsval \<Rightarrow> Book list \<Rightarrow> error + SearchResult" where
  \<comment> \<open>the try block of \<^verbatim>\<open>searchBooks\<close> from the partition on\<close>
  "searchResultOf originalQuery aiData aiBooks =
     (let withPDFs = filter (\<lambda>book. truthy (downloadUrl book)) aiBooks;
          withoutPDFs = filter (\<lambda>book. \<not> truthy (downloadUrl book)) aiBooks;
          allBooks = withPDFs @ withoutPDFs
      in case getProperty aiData (js ''enhancedQuery'') of
           Inl e \<Rightarrow> Inl e
         | Inr eq \<Rightarrow>
             (case getProperty aiData (js ''searchTerms'') of
                Inl e \<Rightarrow> Inl e
              | Inr st \<Rightarrow>
                  Inr \<lparr>books = allBooks,
                       totalResults = length allBooks,
                       query = originalQuery,
                       enhancedQuery = eq,
                       searchTerms = st,
                       aiRecommendationsCount = length aiBooks,
                       pdfFoundCount = length withPDFs,
                       booksWithoutPDFs = Some (length withoutPDFs)\<rparr>))"

definition searchBooksTry ::
  "runtime \<Rightarrow> config \<Rightarrow> (chat_request \<Rightarrow> error + chat_response) \<Rightarrow> (nat \<Rightarrow> network) \<Rightarrow>
     int \<Rightarrow> int \<Rightarrow> cache \<Rightarrow> jsstring \<Rightarrow> (error + SearchResult) \<times> cache" where
  \<comment> \<open>the try block of \<^verbatim>\<open>searchBooks\<close>: \<open>Inl\<close> is an exception that reaches the catch\<close>
  "searchBooksTry rt cfg post nets now now' c originalQuery =
     (case getAIRecommendations rt post now now' c originalQuery of
        (Inl e, c') \<Rightarrow> (Inl e, c')
      | (Inr aiData, c') \<Rightarrow>
          (case getProperty aiData (js ''recommendations'') of
             Inl e \<Rightarrow> (Inl e, c')
           | Inr (Arr recs) \<Rightarrow>
               (case awaitAll (convertEach rt cfg nets originalQuery recs) of
                  Inl e \<Rightarrow> (Inl e, c')
                | Inr aiBooks \<Rightarrow> (searchResultOf originalQuery aiData aiBooks, c'))
           | Inr _ \<Rightarrow> (Inl TypeError, c')))"

definition emptyResult :: "jsstring \<Rightarrow> SearchResult" where
  \<comment> \<open>the object the catch block returns; it has no \<^verbatim>\<open>enhancedQuery\<close>,
      \<^verbatim>\<open>searchTerms\<close> or \<^verbatim>\<open>booksWithoutPDFs\<close>\<close>
  "emptyResult originalQuery =
     \<lparr>books = [], totalResults = 0, query = originalQuery, enhancedQuery = Undefined,
      searchTerms = Undefined, aiRecommendationsCount = 0, pdfFoundCount = 0,
      booksWithoutPDFs = None\<rparr>"

definition searchBooks ::
  "runtime \<Rightarrow> config \<Rightarrow> (chat_request \<Rightarrow> error + chat_response) \<Rightarrow> (nat \<Rightarrow> network) \<Rightarrow>
     int \<Rightarrow> int \<Rightarrow> cache \<Rightarrow> jsstring \<Rightarrow> SearchResult \<times> cache" where
  "searchBooks rt cfg post nets now now' c originalQuery =
     (case searchBooksTry rt cfg post nets now now' c originalQuery of
        (Inl e, c') \<Rightarrow> (emptyResult originalQuery, c')
      | (Inr result, c') \<Rightarrow> (result, c'))"

section \<open>Notions the properties are stated with\<close>

definition qualifies :: "runtime \<Rightarrow> pse_item \<Rightarrow> bool" where
  \<comment> \<open>a search result with a link that ends in or contains \<^verbatim>\<open>.pdf\<close>, or with a link
      and a display domain or snippet that contains \<^verbatim>\<open>pdf\<close>, all in lower case\<close>
  "qualifies rt item =
     (case link item of
        None \<Rightarrow> False
      | Some l \<Rightarrow>
          l \<noteq> [] \<and>
          (endsWith (toLowerCase rt l) (js ''.pdf'') \<or>
           includes_js (toLowerCase rt l) (js ''.pdf'') \<or>
           mentionsPdf rt (displayLink item) \<or> mentionsPdf rt (snippet item)))"

fun isStr :: "jsval \<Rightarrow> bool" where
  "isStr (Str s) = True"
| "isStr v = False"

fun isStrArray :: "jsval \<Rightarrow> bool" where
  "isStrArray (Arr vs) = list_all isStr vs"
| "isStrArray v = False"

definition hasRecommendationShape :: "jsval \<Rightarrow> bool" where
  \<comment> \<open>a value of the interface \<^verbatim>\<open>AIRecommendation\<close>: an object with a string
      \<^verbatim>\<open>enhancedQuery\<close> and arrays of strings \<^verbatim>\<open>recommendations\<close> and \<^verbatim>\<open>searchTerms\<close>\<close>
  "hasRecommendationShape v =
     (case v of
        Obj fs \<Rightarrow>
          (case map_of fs (js ''enhancedQuery'') of Some e \<Rightarrow> isStr e | None \<Rightarrow> False) \<and>
          (case map_of fs (js ''recommendations'') of Some r \<Rightarrow> isStrArray r | None \<Rightarrow> False) \<and>
          (case map_of fs (js ''searchTerms'') of Some t \<Rightarrow> isStrArray t | None \<Rightarrow> False)
      | _ \<Rightarrow> False)"

fun splitAtFence :: "jsstring \<Rightarrow> (jsstring \<times> jsstring) option" where
  \<comment> \<open>the text before the first \<^verbatim>\<open>```\<close> of s and the text after it\<close>
  "splitAtFence [] = None"
| "splitAtFence (c # cs) =
     (if startsWith (c # cs) fence then Some ([], drop 3 (c # cs))
      else (case splitAtFence cs of None \<Rightarrow> None | Some (before, rest) \<Rightarrow> Some (c # before, rest)))"

definition fencedBlock :: "jsstring \<Rightarrow> jsstring option" where
  \<comment> \<open>the content of the first fenced code block of a text: what stands between the
      first \<^verbatim>\<open>```\<close> and the next one, or \<open>None\<close> when the text has no such block\<close>
  "fencedBlock s =
     (case splitAtFence s of
        None \<Rightarrow> None
      | Some (before, r) \<Rightarrow>
          (case splitAtFence r of None \<Rightarrow> None | Some (body, rest) \<Rightarrow> Some body))"

definition dropJsonTag :: "jsstring \<Rightarrow> jsstring" where
  \<comment> \<open>a block's content without the tag \<^verbatim>\<open>json\<close> that may open it\<close>
  "dropJsonTag body = (if startsWith body (js ''json'') then drop 4 body else body)"

definition rstrip :: "jsstring \<Rightarrow> jsstring" where
  \<comment> \<open>a string without the white space that ends it\<close>
  "rstrip s = rev (dropWhile isWhiteSpace (rev s))"

fun hasBySeparator :: "jsstring \<Rightarrow> bool" where
  \<comment> \<open>the string contains \<^verbatim>\<open>by\<close>, in either case, between two white-space characters\<close>
  "hasBySeparator [] = False"
| "hasBySeparator (w # s) =
     ((isWhiteSpace w \<and>
       (case s of b # y # w' # rest \<Rightarrow> isBy b y \<and> isWhiteSpace w' | _ \<Rightarrow> False)) \<or>
      hasBySeparator s)"

definition expired :: "cache \<Rightarrow> jsstring \<Rightarrow> int \<Rightarrow> bool" where
  \<comment> \<open>the cache has nothing to return for the key at the time: no entry, or one that
      is \<open>CACHE_DURATION\<close> old or older\<close>
  "expired c k now =
     (case c k of None \<Rightarrow> True | Some entry \<Rightarrow> CACHE_DURATION \<le> now - timestamp entry)"

section \<open>Example environments\<close>

text \<open>
  The concrete runtime, replies and networks of the examples. On ASCII strings
  \<open>asciiLowerCase\<close> is \<^verbatim>\<open>toLowerCase\<close>, and \<open>parseExamples\<close> gives the value of
  \<^verbatim>\<open>JSON.parse\<close> on the text \<^verbatim>\<open>{}\<close> and on the four JSON texts below, and its
  failure on a text that is no JSON; the examples apply the two functions to nothing
  else.
\<close>

definition asciiLowerCase :: "jsstring \<Rightarrow> jsstring" where
  "asciiLowerCase s = map (\<lambda>c. if 0x41 \<le> c \<and> c \<le> 0x5A then c + 0x20 else c) s"

definition jsonGood :: jsstring where
  \<open>jsonGood = js ''{"enhancedQuery":"classic novels","recommendations":["Dune by Frank Herbert","Emma by Jane Austen","Ulysses by James Joyce"],"searchTerms":["classics"]}''\<close>

definition valueGood :: jsval where
  "valueGood =
     Obj [(js ''enhancedQuery'', Str (js ''classic novels'')),
          (js ''recommendations'',
             Arr [Str (js ''Dune by Frank Herbert''), Str (js ''Emma by Jane Austen''),
                  Str (js ''Ulysses by James Joyce'')]),
          (js ''searchTerms'', Arr [Str (js ''classics'')])]"

definition jsonNullElement :: jsstring where
  \<open>jsonNullElement = js ''{"recommendations":["Dune by Frank Herbert",null]}''\<close>

definition valueNullElement :: jsval where
  "valueNullElement = Obj [(js ''recommendations'', Arr [Str (js ''Dune by Frank Herbert''), Null])]"

definition jsonOneString :: jsstring where
  \<open>jsonOneString = js ''{"recommendations":"Dune by Frank Herbert"}''\<close>

definition valueOneString :: jsval where
  "valueOneString = Obj [(js ''recommendations'', Str (js ''Dune by Frank Herbert''))]"

definition jsonWrongKey :: jsstring where
  \<open>jsonWrongKey = js ''{"books":["Dune by Frank Herbert"]}''\<close>

definition valueWrongKey :: jsval where
  "valueWrongKey = Obj [(js ''books'', Arr [Str (js ''Dune by Frank Herbert'')])]"

definition parseExamples :: "jsstring \<Rightarrow> jsval option" where
  "parseExamples s =
     (if s = js ''{}'' then Some (Obj [])
      else if s = jsonGood then Some valueGood
      else if s = jsonNullElement then Some valueNullElement
      else if s = jsonOneString then Some valueOneString
      else if s = jsonWrongKey then Some valueWrongKey
      else None)"

definition exampleRuntime :: runtime where
  "exampleRuntime = \<lparr>toLowerCase = asciiLowerCase, JSON_parse = parseExamples\<rparr>"

definition chatReplies :: "jsstring \<Rightarrow> chat_request \<Rightarrow> error + chat_response" where
  \<comment> \<open>a model that answers every request with the given text\<close>
  "chatReplies text req = Inr \<lparr>choices = [\<lparr>message = Some \<lparr>content = Some text\<rparr>\<rparr>]\<rparr>"

definition chatDown :: "chat_request \<Rightarrow> error + chat_response" where
  \<comment> \<open>a model that cannot be reached\<close>
  "chatDown req = Inl AxiosError"

definition fencedReply :: jsstring where
  \<comment> \<open>a reply with the text \<^verbatim>\<open>{}\<close> in a fenced block tagged json, on three lines\<close>
  "fencedReply = js ''```json'' @ [0x0A] @ js ''{}'' @ [0x0A] @ js ''```''"

definition credentials :: config where
  "credentials = \<lparr>GOOGLE_API_KEY = Some (js ''k''), GOOGLE_CX = Some (js ''e'')\<rparr>"

definition noCredentials :: config where
  "noCredentials = \<lparr>GOOGLE_API_KEY = None, GOOGLE_CX = Some (js ''e'')\<rparr>"

definition netSilent :: network where
  \<comment> \<open>no service knows any book\<close>
  "netSilent =
     \<lparr>openLibrarySearch = (\<lambda>s. Inr \<lparr>docs = Some []\<rparr>),
      coverHead = (\<lambda>u. Inl AxiosError),
      googleBooksVolumes = (\<lambda>s. Inr \<lparr>items = None\<rparr>),
      customSearch = (\<lambda>r. Inr \<lparr>items = Some []\<rparr>)\<rparr>"

definition netDown :: network where
  \<comment> \<open>every request fails\<close>
  "netDown =
     \<lparr>openLibrarySearch = (\<lambda>s. Inl AxiosError),
      coverHead = (\<lambda>u. Inl AxiosError),
      googleBooksVolumes = (\<lambda>s. Inl AxiosError),
      customSearch = (\<lambda>r. Inl AxiosError)\<rparr>"

definition netLibrary :: network where
  \<comment> \<open>Open Library has a cover for every book; the search engine finds a PDF of
      \<^emph>\<open>Dune\<close> and of \<^emph>\<open>Ulysses\<close> and nothing else\<close>
  "netLibrary =
     \<lparr>openLibrarySearch = (\<lambda>s. Inr \<lparr>docs = Some [\<lparr>cover_i = Some 42, isbn = None\<rparr>]\<rparr>),
      coverHead = (\<lambda>u. Inl AxiosError),
      googleBooksVolumes = (\<lambda>s. Inr \<lparr>items = None\<rparr>),
      customSearch =
        (\<lambda>r. if exactTerms r = js ''Dune'' then
                Inr \<lparr>items = Some [\<lparr>link = Some (js ''https://example.org/dune.pdf''),
                                     displayLink = Some (js ''example.org''),
                                     snippet = None\<rparr>]\<rparr>
              else if exactTerms r = js ''Ulysses'' then
                Inr \<lparr>items = Some [\<lparr>link = Some (js ''https://example.org/ulysses.PDF''),
                                     displayLink = None, snippet = None\<rparr>]\<rparr>
              else Inr \<lparr>items = Some []\<rparr>)\<rparr>"

definition libraryEverywhere :: "nat \<Rightarrow> network" where
  \<comment> \<open>every conversion finds the network \<open>netLibrary\<close>\<close>
  "libraryEverywhere = (\<lambda>i. netLibrary)"

definition emptyCache :: cache where
  "emptyCache = Map.empty"

definition twoResults :: "pse_item list" where
  \<comment> \<open>a page about the book that mentions a PDF, then the PDF itself\<close>
  "twoResults =
     [\<lparr>link = Some (js ''https://example.org/read/dune''),
       displayLink = Some (js ''example.org''),
       snippet = Some (js ''Read Dune online or get the PDF'')\<rparr>,
      \<lparr>link = Some (js ''https://example.org/dune.pdf''),
       displayLink = Some (js ''example.org''),
       snippet = None\<rparr>]"

definition netTwoResults :: network where
  "netTwoResults = netSilent\<lparr>customSearch := (\<lambda>r. Inr \<lparr>items = Some twoResults\<rparr>)\<rparr>"

definition astralTitle :: jsstring where
  \<comment> \<open>29 letters and the character U+1F4DA, which is the surrogate pair D83D DCDA\<close>
  "astralTitle = replicate 29 0x41 @ [0xD83D, 0xDCDA]"

definition bookDune :: Book where
  "bookDune =
     \<lparr>id' = js ''ai-rec-0'', title = js ''Dune'', author = [js ''Frank Herbert''],
      subjects = [js ''AI recommended for: classics''], source = AiRecommendation,
      isAIRecommendation = True, downloadUrl = Some (js ''https://example.org/dune.pdf''),
      coverUrl = js ''https://covers.openlibrary.org/b/id/42-L.jpg''\<rparr>"

definition bookEmma :: Book where
  "bookEmma =
     \<lparr>id' = js ''ai-rec-1'', title = js ''Emma'', author = [js ''Jane Austen''],
      subjects = [js ''AI recommended for: classics''], source = AiRecommendation,
      isAIRecommendation = True, downloadUrl = None,
      coverUrl = js ''https://covers.openlibrary.org/b/id/42-L.jpg''\<rparr>"

definition bookUlysses :: Book where
  "bookUlysses =
     \<lparr>id' = js ''ai-rec-2'', title = js ''Ulysses'', author = [js ''James Joyce''],
      subjects = [js ''AI recommended for: classics''], source = AiRecommendation,
      isAIRecommendation = True, downloadUrl = Some (js ''https://example.org/ulysses.PDF''),
      coverUrl = js ''https://covers.openlibrary.org/b/id/42-L.jpg''\<rparr>"

definition resultGood :: SearchResult where
  "resultGood =
     \<lparr>books = [bookDune, bookUlysses, bookEmma], totalResults = 3, query = js ''classics'',
      enhancedQuery = Str (js ''classic novels''), searchTerms = Arr [Str (js ''classics'')],
      aiRecommendationsCount = 3, pdfFoundCount = 2, booksWithoutPDFs = Some 1\<rparr>"

section \<open>Facts about trimming\<close>

lemma trim_rstrip: "trim s = rstrip (dropWhile isWhiteSpace s)"
  by (simp add: trim_def rstrip_def)

lemma rstrip_ws: "list_all isWhiteSpace s \<Longrightarrow> rstrip s = []"
  by (simp add: rstrip_def list_all_iff)

lemma rstrip_Cons:
  "\<not> list_all isWhiteSpace s \<Longrightarrow> rstrip (c # s) = c # rstrip s"
proof -
  assume "\<not> list_all isWhiteSpace s"
  then obtain x where "x \<in> set (rev s)" "\<not> isWhiteSpace x"
    by (auto simp: list_all_iff)
  then have "dropWhile isWhiteSpace (rev s @ [c]) = dropWhile isWhiteSpace (rev s) @ [c]"
    by (rule dropWhile_append1)
  then show ?thesis
    by (simp add: rstrip_def)
qed

lemma rstrip_single: "\<not> isWhiteSpace c \<Longrightarrow> list_all isWhiteSpace s \<Longrightarrow> rstrip (c # s) = [c]"
proof -
  assume c: "\<not> isWhiteSpace c" and "list_all isWhiteSpace s"
  then have "dropWhile isWhiteSpace (rev s @ [c]) = dropWhile isWhiteSpace [c]"
    by (intro dropWhile_append2) (simp add: list_all_iff)
  with c show ?thesis
    by (simp add: rstrip_def)
qed

lemma lstrip_rstrip: "dropWhile isWhiteSpace (rstrip s) = rstrip (dropWhile isWhiteSpace s)"
proof (induction s)
  case Nil
  then show ?case by (simp add: rstrip_def)
next
  case (Cons c s)
  show ?case
  proof (cases "list_all isWhiteSpace s")
    case True
    then have e: "dropWhile isWhiteSpace s = []"
      by (simp add: list_all_iff)
    show ?thesis
    proof (cases "isWhiteSpace c")
      case True
      with \<open>list_all isWhiteSpace s\<close> have l: "rstrip (c # s) = []"
        by (intro rstrip_ws) simp
      have r: "dropWhile isWhiteSpace (c # s) = []"
        using True e by simp
      show ?thesis
        by (simp only: l r) (simp add: rstrip_def)
    next
      case False
      with True show ?thesis
        by (simp add: rstrip_single)
    qed
  next
    case False
    then show ?thesis
      using Cons.IH by (simp add: rstrip_Cons)
  qed
qed

lemma rstrip_rstrip: "rstrip (rstrip s) = rstrip s"
  by (simp add: rstrip_def)

lemma trim_trim: "trim (trim s) = trim s"
  by (simp add: trim_rstrip lstrip_rstrip rstrip_rstrip)

lemma trim_ws_prefix: "list_all isWhiteSpace w \<Longrightarrow> trim (w @ x) = trim x"
proof -
  assume "list_all isWhiteSpace w"
  then have "dropWhile isWhiteSpace (w @ x) = dropWhile isWhiteSpace x"
    by (intro dropWhile_append2) (simp add: list_all_iff)
  then show ?thesis
    by (simp add: trim_def)
qed

lemma rstrip_ws_suffix: "list_all isWhiteSpace w \<Longrightarrow> rstrip (x @ w) = rstrip x"
proof -
  assume "list_all isWhiteSpace w"
  then have "dropWhile isWhiteSpace (rev w @ rev x) = dropWhile isWhiteSpace (rev x)"
    by (intro dropWhile_append2) (simp add: list_all_iff)
  then show ?thesis
    by (simp add: rstrip_def)
qed

lemma trim_lstrip: "trim s = dropWhile isWhiteSpace (rstrip s)"
  by (simp add: trim_rstrip lstrip_rstrip)

lemma trim_ws_suffix: "list_all isWhiteSpace w \<Longrightarrow> trim (x @ w) = trim x"
  by (simp add: trim_lstrip rstrip_ws_suffix)

lemma trim_decomposition:
  "\<exists>w1 w2. x = w1 @ trim x @ w2 \<and> list_all isWhiteSpace w1 \<and> list_all isWhiteSpace w2"
proof -
  define y where "y = dropWhile isWhiteSpace x"
  have 1: "x = takeWhile isWhiteSpace x @ y"
    by (simp add: y_def)
  have "rev (takeWhile isWhiteSpace (rev y) @ dropWhile isWhiteSpace (rev y)) = y"
    by (simp only: takeWhile_dropWhile_id rev_rev_ident)
  then have "rev (dropWhile isWhiteSpace (rev y)) @ rev (takeWhile isWhiteSpace (rev y)) = y"
    by (simp only: rev_append)
  then have 2: "y = trim x @ rev (takeWhile isWhiteSpace (rev y))"
    by (simp only: trim_def y_def)
  have 3: "list_all isWhiteSpace (takeWhile isWhiteSpace x)"
    by (auto simp: list_all_iff dest: set_takeWhileD)
  have 4: "list_all isWhiteSpace (rev (takeWhile isWhiteSpace (rev y)))"
    by (auto simp: list_all_iff dest: set_takeWhileD)
  from 1 2 have "x = takeWhile isWhiteSpace x @ trim x @ rev (takeWhile isWhiteSpace (rev y))"
    by simp
  with 3 4 show ?thesis
    by blast
qed

section \<open>Properties of the search\<close>

text \<open>
  Claim C2. \<^verbatim>\<open>searchBooks\<close> never raises: whatever happens in its try block, it returns
  either the result of the block or the empty result. In particular, when
  \<^verbatim>\<open>getAIRecommendations\<close> fails, with any error, the search returns the result with
  no books, \<open>totalResults\<close>, \<open>aiRecommendationsCount\<close> and \<open>pdfFoundCount\<close> 0 and the
  query as it was given.
\<close>

theorem searchBooks_never_raises:
  "(fst (getAIRecommendations rt post now now' c originalQuery) = Inl e \<longrightarrow>
      fst (searchBooks rt cfg post nets now now' c originalQuery) =
        \<lparr>books = [], totalResults = 0, query = originalQuery, enhancedQuery = Undefined,
         searchTerms = Undefined, aiRecommendationsCount = 0, pdfFoundCount = 0,
         booksWithoutPDFs = None\<rparr>) \<and>
   (case fst (searchBooksTry rt cfg post nets now now' c originalQuery) of
      Inl e' \<Rightarrow>
        fst (searchBooks rt cfg post nets now now' c originalQuery) = emptyResult originalQuery
    | Inr r \<Rightarrow> fst (searchBooks rt cfg post nets now now' c originalQuery) = r)"
proof (intro conjI impI)
  assume "fst (getAIRecommendations rt post now now' c originalQuery) = Inl e"
  then obtain c' where "getAIRecommendations rt post now now' c originalQuery = (Inl e, c')"
    by (cases "getAIRecommendations rt post now now' c originalQuery") simp
  then show "fst (searchBooks rt cfg post nets now now' c originalQuery) =
        \<lparr>books = [], totalResults = 0, query = originalQuery, enhancedQuery = Undefined,
         searchTerms = Undefined, aiRecommendationsCount = 0, pdfFoundCount = 0,
         booksWithoutPDFs = None\<rparr>"
    by (simp add: searchBooks_def searchBooksTry_def emptyResult_def)
next
  show "case fst (searchBooksTry rt cfg post nets now now' c originalQuery) of
      Inl e' \<Rightarrow>
        fst (searchBooks rt cfg post nets now now' c originalQuery) = emptyResult originalQuery
    | Inr r \<Rightarrow> fst (searchBooks rt cfg post nets now now' c originalQuery) = r"
    by (cases "searchBooksTry rt cfg post nets now now' c originalQuery")
       (auto simp: searchBooks_def split: sum.splits)
qed

theorem searchBooks_never_raises_witness:
  "fst (getAIRecommendations exampleRuntime chatDown 0 0 Map.empty (js ''classics'')) =
     Inl AxiosError \<and>
   fst (searchBooks exampleRuntime credentials chatDown (\<lambda>i. netLibrary) 0 0 Map.empty
          (js ''classics'')) =
     \<lparr>books = [], totalResults = 0, query = js ''classics'', enhancedQuery = Undefined,
      searchTerms = Undefined, aiRecommendationsCount = 0, pdfFoundCount = 0,
      booksWithoutPDFs = None\<rparr>"
proof -
  have h: "fst (getAIRecommendations exampleRuntime chatDown 0 0 Map.empty (js ''classics'')) =
             Inl AxiosError"
    by (simp add: getAIRecommendations_def getRecommendationsFromModel_def chatDown_def)
  from searchBooks_never_raises [THEN conjunct1, rule_format, OF h] h
  show ?thesis by simp
qed

section \<open>Properties of the PDF locator\<close>

text \<open>
  Claim C5. \<^verbatim>\<open>searchGoogleForPDF\<close> never fails: it returns a link or nothing on every
  input. When the API key or the search-engine id is not configured (undefined or
  empty) it returns nothing and has issued no request; when the search request fails,
  and when the response has no items, it returns nothing.
\<close>

theorem searchGoogleForPDF_never_fails:
  "(\<not> truthy (GOOGLE_API_KEY cfg) \<or> \<not> truthy (GOOGLE_CX cfg) \<longrightarrow>
      searchGoogleForPDF cfg rt net bookTitle a = (None, [])) \<and>
   (GOOGLE_API_KEY cfg = Some apiKey \<and> GOOGLE_CX cfg = Some engine \<and>
    customSearch net (pdfSearchRequest apiKey engine bookTitle a) = Inl e \<longrightarrow>
      fst (searchGoogleForPDF cfg rt net bookTitle a) = None) \<and>
   (GOOGLE_API_KEY cfg = Some apiKey \<and> GOOGLE_CX cfg = Some engine \<and>
    customSearch net (pdfSearchRequest apiKey engine bookTitle a) = Inr response \<and>
    (items response = None \<or> items response = Some []) \<longrightarrow>
      fst (searchGoogleForPDF cfg rt net bookTitle a) = None)"
  by (auto simp: searchGoogleForPDF_def Let_def split: option.splits sum.splits)

theorem searchGoogleForPDF_never_fails_witness:
  "searchGoogleForPDF noCredentials exampleRuntime netLibrary (js ''Dune'') (js ''Frank Herbert'') =
     (None, []) \<and>
   fst (searchGoogleForPDF credentials exampleRuntime netDown (js ''Dune'') (js ''Frank Herbert'')) =
     None \<and>
   fst (searchGoogleForPDF credentials exampleRuntime netSilent (js ''Dune'') (js ''Frank Herbert'')) =
     None"
proof -
  have h1: "\<not> truthy (GOOGLE_API_KEY noCredentials) \<or> \<not> truthy (GOOGLE_CX noCredentials)"
    by (simp add: noCredentials_def truthy_def)
  have k: "GOOGLE_API_KEY credentials = Some (js ''k'')" "GOOGLE_CX credentials = Some (js ''e'')"
    by (simp_all add: credentials_def)
  have h2: "customSearch netDown
              (pdfSearchRequest (js ''k'') (js ''e'') (js ''Dune'') (js ''Frank Herbert'')) =
            Inl AxiosError"
    by (simp add: netDown_def)
  have h3: "customSearch netSilent
              (pdfSearchRequest (js ''k'') (js ''e'') (js ''Dune'') (js ''Frank Herbert'')) =
            Inr \<lparr>items = Some []\<rparr>"
    by (simp add: netSilent_def)
  note t = searchGoogleForPDF_never_fails
  from t [THEN conjunct1, rule_format, OF h1]
       t [THEN conjunct2, THEN conjunct1, rule_format, OF conjI [OF k(1) conjI [OF k(2) h2]]]
       t [THEN conjunct2, THEN conjunct2, rule_format,
          OF conjI [OF k(1) conjI [OF k(2) conjI [OF h3]]]]
  show ?thesis by simp
qed

lemma scanItems_find:
  "scanItems rt its =
     (case List.find (qualifies rt) its of None \<Rightarrow> None | Some item \<Rightarrow> link item)"
  by (induction its) (auto simp: qualifies_def split: option.splits)

text \<open>
  Claim C4, as amended. The loop of \<^verbatim>\<open>searchGoogleForPDF\<close> makes one pass over the
  results and applies both tests to each result before it goes on to the next: with
  the credentials configured and a response that has items, the locator returns the
  link of the first result that has a non-empty link and whose link ends in or contains
  \<^verbatim>\<open>.pdf\<close> or whose display domain or snippet contains \<^verbatim>\<open>pdf\<close> (in lower case),
  and nothing when no result is such.
\<close>

theorem searchGoogleForPDF_first_qualifying:
  "GOOGLE_API_KEY cfg = Some apiKey \<and> apiKey \<noteq> [] \<and>
   GOOGLE_CX cfg = Some engine \<and> engine \<noteq> [] \<and>
   customSearch net (pdfSearchRequest apiKey engine bookTitle a) = Inr response \<and>
   items response = Some its \<longrightarrow>
     fst (searchGoogleForPDF cfg rt net bookTitle a) =
       (case List.find (qualifies rt) its of None \<Rightarrow> None | Some item \<Rightarrow> link item)"
  by (simp add: searchGoogleForPDF_def truthy_def scanItems_find)

theorem searchGoogleForPDF_first_qualifying_witness:
  "fst (searchGoogleForPDF credentials exampleRuntime netLibrary (js ''Ulysses'')
          (js ''James Joyce'')) =
     Some (js ''https://example.org/ulysses.PDF'') \<and>
   fst (searchGoogleForPDF credentials exampleRuntime netLibrary (js ''Emma'')
          (js ''Jane Austen'')) = None"
proof -
  have k: "GOOGLE_API_KEY credentials = Some (js ''k'')" "js ''k'' \<noteq> []"
          "GOOGLE_CX credentials = Some (js ''e'')" "js ''e'' \<noteq> []"
    by (simp_all add: credentials_def js_def)
  have h1: "customSearch netLibrary
              (pdfSearchRequest (js ''k'') (js ''e'') (js ''Ulysses'') (js ''James Joyce'')) =
            Inr \<lparr>items = Some [\<lparr>link = Some (js ''https://example.org/ulysses.PDF''),
                                 displayLink = None, snippet = None\<rparr>]\<rparr>"
    by code_simp
  have h2: "customSearch netLibrary
              (pdfSearchRequest (js ''k'') (js ''e'') (js ''Emma'') (js ''Jane Austen'')) =
            Inr \<lparr>items = Some []\<rparr>"
    by code_simp
  have i1: "items \<lparr>items = Some [\<lparr>link = Some (js ''https://example.org/ulysses.PDF''),
                                   displayLink = None, snippet = None\<rparr>]\<rparr> =
            Some [\<lparr>link = Some (js ''https://example.org/ulysses.PDF''),
                   displayLink = None, snippet = None\<rparr>]"
    by simp
  have i2: "items \<lparr>items = Some ([] :: pse_item list)\<rparr> = Some []"
    by simp
  have q1: "qualifies exampleRuntime
              \<lparr>link = Some (js ''https://example.org/ulysses.PDF''), displayLink = None,
               snippet = None\<rparr>"
    by code_simp
  note t = searchGoogleForPDF_first_qualifying [rule_format]
  from t [OF conjI [OF k(1) conjI [OF k(2) conjI [OF k(3) conjI [OF k(4) conjI [OF h1 i1]]]]],
          of exampleRuntime]
       t [OF conjI [OF k(1) conjI [OF k(2) conjI [OF k(3) conjI [OF k(4) conjI [OF h2 i2]]]]],
          of exampleRuntime]
  show ?thesis by (simp add: q1)
qed

text \<open>
  The claim as it was stated fails: of two results, the first a page whose snippet
  mentions a PDF and the second a link that ends in \<^verbatim>\<open>.pdf\<close>, the locator returns
  the first.
\<close>

theorem searchGoogleForPDF_counterexample:
  "fst (searchGoogleForPDF credentials exampleRuntime netTwoResults (js ''Dune'')
          (js ''Frank Herbert'')) =
     Some (js ''https://example.org/read/dune'') \<and>
   \<not> endsWith (js ''https://example.org/read/dune'') (js ''.pdf'') \<and>
   link (twoResults ! 1) = Some (js ''https://example.org/dune.pdf'') \<and>
   endsWith (js ''https://example.org/dune.pdf'') (js ''.pdf'')"
  by code_simp

section \<open>Properties of the recommendation client\<close>

lemmas extract_eval = jsonString_def js_def closesFence_def fence_def startsWith_def
  afterTag_def matchFenceAt_def isWhiteSpace_def isLineTerminator_def trim_def
  lazyCapture.simps matchFence.simps

lemma jsonString_jsonGood: "trim (jsonString jsonGood) = jsonGood"
  by (simp add: extract_eval jsonGood_def)

lemma parse_jsonGood: "parseExamples jsonGood = Some valueGood"
  by (simp add: parseExamples_def jsonGood_def js_def)

lemma model_good:
  "getRecommendationsFromModel exampleRuntime (chatReplies jsonGood) qry ms = Inr valueGood"
proof -
  have "jsonGood \<noteq> []" by (simp add: jsonGood_def js_def)
  then show ?thesis
    by (simp add: getRecommendationsFromModel_def chatReplies_def messageContent_def
        extractJsonFromResponse_def exampleRuntime_def jsonString_jsonGood parse_jsonGood)
qed

text \<open>
  Claim C8. The cache is read and written inside \<^verbatim>\<open>getAIRecommendations\<close>, under the
  key \<^verbatim>\<open>query.toLowerCase().trim()\<close>. A call that finds no entry, or one that is
  \<open>CACHE_DURATION\<close> (5 minutes) old or older, and gets a value from the model stores it
  under that key with the time of the store. A call for any query with the same
  normalized key, made less than \<open>CACHE_DURATION\<close> after the store, returns the stored
  value and leaves the cache as it is, without a request to the model. A call that finds
  an entry \<open>CACHE_DURATION\<close> old or older returns what the model returns, which is what
  it returns when the entry is absent. The periodic sweep keeps every entry that is less
  than \<open>CACHE_DURATION\<close> old. Two queries that are equal in lower case have the same
  key, and a query has the key it has with white space added at its ends, when the
  runtime's \<^verbatim>\<open>toLowerCase\<close> leaves that white space where it is.
\<close>

theorem cache_get_put:
  "(expired c (normalizedQuery rt qry) t0 \<and> getRecommendationsFromModel rt post qry 8000 = Inr v \<longrightarrow>
      snd (getAIRecommendations rt post t0 t1 c qry) =
        c(normalizedQuery rt qry \<mapsto> \<lparr>data = v, timestamp = t1\<rparr>)) \<and>
   (normalizedQuery rt qry' = k \<and> t2 - t1 < CACHE_DURATION \<longrightarrow>
      getAIRecommendations rt post' t2 t3 (c(k \<mapsto> \<lparr>data = v, timestamp = t1\<rparr>)) qry' =
        (Inr v, c(k \<mapsto> \<lparr>data = v, timestamp = t1\<rparr>))) \<and>
   (c (normalizedQuery rt qry) = Some old \<and> CACHE_DURATION \<le> t0 - timestamp old \<longrightarrow>
      fst (getAIRecommendations rt post t0 t1 c qry) = getRecommendationsFromModel rt post qry 8000 \<and>
      fst (getAIRecommendations rt post t0 t1 c qry) =
        fst (getAIRecommendations rt post t0 t1 (c(normalizedQuery rt qry := None)) qry)) \<and>
   (c k = Some entry \<and> t2 - timestamp entry < CACHE_DURATION \<longrightarrow> sweep t2 c k = Some entry) \<and>
   (toLowerCase rt s = toLowerCase rt s' \<longrightarrow> normalizedQuery rt s = normalizedQuery rt s') \<and>
   (list_all isWhiteSpace w1 \<and> list_all isWhiteSpace w2 \<and>
    toLowerCase rt (w1 @ s @ w2) = w1 @ toLowerCase rt s @ w2 \<longrightarrow>
      normalizedQuery rt (w1 @ s @ w2) = normalizedQuery rt s)"
proof -
  have "normalizedQuery rt (w1 @ s @ w2) = normalizedQuery rt s"
    if "list_all isWhiteSpace w1" "list_all isWhiteSpace w2"
       "toLowerCase rt (w1 @ s @ w2) = w1 @ toLowerCase rt s @ w2"
    using that trim_ws_suffix [of w2 "toLowerCase rt s"]
    by (simp add: normalizedQuery_def trim_ws_prefix)
  then show ?thesis
    by (auto simp: getAIRecommendations_def expired_def sweep_def Let_def normalizedQuery_def
             split: option.splits sum.splits)
qed

theorem cache_get_put_witness:
  "snd (getAIRecommendations exampleRuntime (chatReplies jsonGood) 0 1000 Map.empty (js ''Classics '')) =
     [js ''classics'' \<mapsto> \<lparr>data = valueGood, timestamp = 1000\<rparr>] \<and>
   getAIRecommendations exampleRuntime chatDown 2000 3000
       [js ''classics'' \<mapsto> \<lparr>data = valueGood, timestamp = 1000\<rparr>] (js '' classics'') =
     (Inr valueGood, [js ''classics'' \<mapsto> \<lparr>data = valueGood, timestamp = 1000\<rparr>]) \<and>
   fst (getAIRecommendations exampleRuntime chatDown 301000 302000
       [js ''classics'' \<mapsto> \<lparr>data = valueGood, timestamp = 1000\<rparr>] (js '' classics'')) =
     Inl AxiosError \<and>
   sweep 300000 [js ''classics'' \<mapsto> \<lparr>data = valueGood, timestamp = 1000\<rparr>] (js ''classics'') =
     Some \<lparr>data = valueGood, timestamp = 1000\<rparr> \<and>
   normalizedQuery exampleRuntime (js ''CLASSICS'') = normalizedQuery exampleRuntime (js ''Classics'') \<and>
   normalizedQuery exampleRuntime (js '' '' @ js ''Classics'' @ js ''  '') =
     normalizedQuery exampleRuntime (js ''Classics'')"
proof -
  let ?e = "\<lparr>data = valueGood, timestamp = 1000\<rparr>"
  let ?c = "[js ''classics'' \<mapsto> ?e]"
  have n: "normalizedQuery exampleRuntime (js ''Classics '') = js ''classics''"
          "normalizedQuery exampleRuntime (js '' classics'') = js ''classics''"
    by (simp_all add: normalizedQuery_def exampleRuntime_def asciiLowerCase_def trim_def js_def
        isWhiteSpace_def isLineTerminator_def)
  have h1: "expired Map.empty (normalizedQuery exampleRuntime (js ''Classics '')) 0 \<and>
            getRecommendationsFromModel exampleRuntime (chatReplies jsonGood) (js ''Classics '') 8000 =
              Inr valueGood"
    by (simp add: expired_def model_good)
  have h2: "normalizedQuery exampleRuntime (js '' classics'') = js ''classics'' \<and>
            (2000::int) - 1000 < CACHE_DURATION"
    by (simp add: n CACHE_DURATION_def)
  have h3: "?c (normalizedQuery exampleRuntime (js '' classics'')) = Some ?e \<and>
            CACHE_DURATION \<le> 301000 - timestamp ?e"
    by (simp add: n CACHE_DURATION_def)
  have h4: "?c (js ''classics'') = Some ?e \<and> 300000 - timestamp ?e < CACHE_DURATION"
    by (simp add: CACHE_DURATION_def)
  have m: "getRecommendationsFromModel exampleRuntime chatDown (js '' classics'') 8000 = Inl AxiosError"
    by (simp add: getRecommendationsFromModel_def chatDown_def)
  have h5: "toLowerCase exampleRuntime (js ''CLASSICS'') = toLowerCase exampleRuntime (js ''Classics'')"
    by (simp add: exampleRuntime_def asciiLowerCase_def js_def)
  have h6: "list_all isWhiteSpace (js '' '') \<and> list_all isWhiteSpace (js ''  '') \<and>
            toLowerCase exampleRuntime (js '' '' @ js ''Classics'' @ js ''  '') =
              js '' '' @ toLowerCase exampleRuntime (js ''Classics'') @ js ''  ''"
    by (simp add: exampleRuntime_def asciiLowerCase_def js_def isWhiteSpace_def)
  note t = cache_get_put
  from t [where c = Map.empty and rt = exampleRuntime and qry = "js ''Classics ''" and ?t0.0 = 0
            and post = "chatReplies jsonGood" and v = valueGood and ?t1.0 = 1000,
          THEN conjunct1, rule_format, OF h1]
       t [where rt = exampleRuntime and qry' = "js '' classics''" and k = "js ''classics''"
            and ?t2.0 = 2000 and ?t1.0 = 1000 and post' = chatDown and ?t3.0 = 3000
            and c = Map.empty and v = valueGood,
          THEN conjunct2, THEN conjunct1, rule_format, OF h2]
       t [where c = "?c" and rt = exampleRuntime and qry = "js '' classics''" and old = "?e"
            and ?t0.0 = 301000 and post = chatDown and ?t1.0 = 302000,
          THEN conjunct2, THEN conjunct2, THEN conjunct1, rule_format, OF h3]
       t [where c = "?c" and k = "js ''classics''" and entry = "?e" and ?t2.0 = 300000,
          THEN conjunct2, THEN conjunct2, THEN conjunct2, THEN conjunct1, rule_format, OF h4]
       t [where rt = exampleRuntime and s = "js ''CLASSICS''" and s' = "js ''Classics''",
          THEN conjunct2, THEN conjunct2, THEN conjunct2, THEN conjunct2, THEN conjunct1,
          rule_format, OF h5]
       t [where rt = exampleRuntime and s = "js ''Classics''" and ?w1.0 = "js '' ''"
            and ?w2.0 = "js ''  ''",
          THEN conjunct2, THEN conjunct2, THEN conjunct2, THEN conjunct2, THEN conjunct2,
          rule_format, OF h6]
  show ?thesis by (simp add: n m)
qed

lemma jsonString_jsonWrongKey: "trim (jsonString jsonWrongKey) = jsonWrongKey"
  by (simp add: extract_eval jsonWrongKey_def)

lemma parse_jsonWrongKey: "parseExamples jsonWrongKey = Some valueWrongKey"
  by (simp add: parseExamples_def jsonWrongKey_def jsonGood_def jsonNullElement_def
      jsonOneString_def js_def)

lemma jsonWrongKey_nonempty: "jsonWrongKey \<noteq> []"
  by (simp add: jsonWrongKey_def js_def)

lemma not_json: 
  "parseExamples (trim (jsonString (js ''Sorry, no books.''))) = None"
  by (simp add: extract_eval parseExamples_def jsonWrongKey_def jsonGood_def jsonNullElement_def jsonOneString_def)

text \<open>
  Claim C9, as amended. When the cache has nothing to return for the query,
  \<^verbatim>\<open>getAIRecommendations\<close> returns what \<^verbatim>\<open>getRecommendationsFromModel\<close> returns and,
  when that is an error, leaves the cache as it is. \<^verbatim>\<open>getRecommendationsFromModel\<close>
  fails with the error of the request when the request fails or times out, fails when
  the reply has no content or an empty one, and fails with the \<^verbatim>\<open>SyntaxError\<close> of
  \<^verbatim>\<open>JSON.parse\<close> when the extracted text is no JSON; it never returns a substitute.
  A text that is JSON is returned as it was parsed, whatever it is: the client does not
  check that the value has the shape of an \<^verbatim>\<open>AIRecommendation\<close>.
\<close>

theorem fetch_failures:
  "(post (chatRequest qry ms) = Inl e \<longrightarrow> getRecommendationsFromModel rt post qry ms = Inl e) \<and>
   (post (chatRequest qry ms) = Inr response \<and> \<not> truthy (messageContent response) \<longrightarrow>
      getRecommendationsFromModel rt post qry ms = Inl NoContent) \<and>
   (post (chatRequest qry ms) = Inr response \<and> messageContent response = Some reply \<and> reply \<noteq> [] \<and>
    JSON_parse rt (trim (jsonString reply)) = None \<longrightarrow>
      getRecommendationsFromModel rt post qry ms = Inl SyntaxError) \<and>
   (post (chatRequest qry ms) = Inr response \<and> messageContent response = Some reply \<and> reply \<noteq> [] \<and>
    JSON_parse rt (trim (jsonString reply)) = Some v \<longrightarrow>
      getRecommendationsFromModel rt post qry ms = Inr v) \<and>
   (expired c (normalizedQuery rt qry) now \<longrightarrow>
      fst (getAIRecommendations rt post now now' c qry) =
        getRecommendationsFromModel rt post qry 8000) \<and>
   (expired c (normalizedQuery rt qry) now \<and>
    getRecommendationsFromModel rt post qry 8000 = Inl e \<longrightarrow>
      getAIRecommendations rt post now now' c qry = (Inl e, c))"
  by (auto simp: getRecommendationsFromModel_def getAIRecommendations_def expired_def truthy_def
        extractJsonFromResponse_def Let_def split: option.splits sum.splits)

theorem fetch_failures_witness:
  "getRecommendationsFromModel exampleRuntime chatDown (js ''classics'') 8000 = Inl AxiosError \<and>
   getRecommendationsFromModel exampleRuntime (\<lambda>r. Inr \<lparr>choices = []\<rparr>) (js ''classics'') 8000 =
     Inl NoContent \<and>
   getRecommendationsFromModel exampleRuntime (chatReplies (js ''Sorry, no books.'')) (js ''classics'')
       8000 = Inl SyntaxError \<and>
   getRecommendationsFromModel exampleRuntime (chatReplies jsonWrongKey) (js ''classics'') 8000 =
     Inr valueWrongKey \<and>
   fst (getAIRecommendations exampleRuntime chatDown 0 0 Map.empty (js ''classics'')) = Inl AxiosError \<and>
   getAIRecommendations exampleRuntime chatDown 0 0 Map.empty (js ''classics'') =
     (Inl AxiosError, Map.empty)"
proof -
  let ?q = "js ''classics''"
  let ?r = "\<lambda>text. \<lparr>choices = [\<lparr>message = Some \<lparr>content = Some text\<rparr>\<rparr>]\<rparr>"
  have h1: "chatDown (chatRequest ?q 8000) = Inl AxiosError"
    by (simp add: chatDown_def)
  have h2: "(\<lambda>r. Inr \<lparr>choices = []\<rparr>) (chatRequest ?q 8000) = Inr \<lparr>choices = []\<rparr> \<and>
            \<not> truthy (messageContent \<lparr>choices = []\<rparr>)"
    by (simp add: messageContent_def truthy_def)
  have h3: "chatReplies (js ''Sorry, no books.'') (chatRequest ?q 8000) = Inr (?r (js ''Sorry, no books.'')) \<and>
            messageContent (?r (js ''Sorry, no books.'')) = Some (js ''Sorry, no books.'') \<and>
            js ''Sorry, no books.'' \<noteq> [] \<and>
            JSON_parse exampleRuntime (trim (jsonString (js ''Sorry, no books.''))) = None"
    by (simp add: chatReplies_def messageContent_def exampleRuntime_def not_json) (simp add: js_def)
  have h4: "chatReplies jsonWrongKey (chatRequest ?q 8000) = Inr (?r jsonWrongKey) \<and>
            messageContent (?r jsonWrongKey) = Some jsonWrongKey \<and> jsonWrongKey \<noteq> [] \<and>
            JSON_parse exampleRuntime (trim (jsonString jsonWrongKey)) = Some valueWrongKey"
    by (simp add: chatReplies_def messageContent_def exampleRuntime_def jsonString_jsonWrongKey
        parse_jsonWrongKey jsonWrongKey_nonempty)
  have h5: "expired Map.empty (normalizedQuery exampleRuntime ?q) 0"
    by (simp add: expired_def)
  note t = fetch_failures
  note a1 = t [where post = chatDown and qry = "?q" and ms = 8000 and rt = exampleRuntime,
               THEN conjunct1, rule_format, OF h1]
  have h6: "expired Map.empty (normalizedQuery exampleRuntime ?q) 0 \<and>
            getRecommendationsFromModel exampleRuntime chatDown ?q 8000 = Inl AxiosError"
    using h5 a1 by simp
  from a1
       t [where post = "\<lambda>r. Inr \<lparr>choices = []\<rparr>" and qry = "?q" and ms = 8000 and rt = exampleRuntime
            and response = "\<lparr>choices = []\<rparr>",
          THEN conjunct2, THEN conjunct1, rule_format, OF h2]
       t [where post = "chatReplies (js ''Sorry, no books.'')" and qry = "?q" and ms = 8000
            and rt = exampleRuntime and response = "?r (js ''Sorry, no books.'')"
            and reply = "js ''Sorry, no books.''",
          THEN conjunct2, THEN conjunct2, THEN conjunct1, rule_format, OF h3]
       t [where post = "chatReplies jsonWrongKey" and qry = "?q" and ms = 8000
            and rt = exampleRuntime and response = "?r jsonWrongKey"
            and reply = jsonWrongKey and v = valueWrongKey,
          THEN conjunct2, THEN conjunct2, THEN conjunct2, THEN conjunct1, rule_format, OF h4]
       t [where post = chatDown and qry = "?q" and rt = exampleRuntime and c = Map.empty
            and now = 0 and now' = 0,
          THEN conjunct2, THEN conjunct2, THEN conjunct2, THEN conjunct2, THEN conjunct1,
          rule_format, OF h5]
       t [where post = chatDown and qry = "?q" and rt = exampleRuntime and c = Map.empty
            and now = 0 and now' = 0 and e = AxiosError,
          THEN conjunct2, THEN conjunct2, THEN conjunct2, THEN conjunct2, THEN conjunct2,
          rule_format, OF h6]
  show ?thesis by simp
qed

text \<open>
  The claim as it was stated fails: a reply that is JSON, but an object with the key
  \<^verbatim>\<open>books\<close> and no other, is returned by the client although it is no
  \<^verbatim>\<open>AIRecommendation\<close>.
\<close>

theorem fetch_counterexample:
  "fst (getAIRecommendations exampleRuntime (chatReplies jsonWrongKey) 0 0 emptyCache
          (js ''classics'')) = Inr valueWrongKey \<and>
   \<not> hasRecommendationShape valueWrongKey"
  by (simp add: emptyCache_def getAIRecommendations_def getRecommendationsFromModel_def chatReplies_def
      messageContent_def extractJsonFromResponse_def exampleRuntime_def jsonString_jsonWrongKey
      parse_jsonWrongKey jsonWrongKey_nonempty hasRecommendationShape_def valueWrongKey_def js_def)

section \<open>Properties of the search: partition and counts\<close>

subsection \<open>Auxiliary facts\<close>

lemma scanItems_nonempty: "scanItems rt its = Some l \<Longrightarrow> l \<noteq> []"
  by (induction its) (auto split: option.splits if_splits)

lemma searchGoogleForPDF_truthy:
  "truthy (fst (searchGoogleForPDF cfg rt net t a)) \<longleftrightarrow> fst (searchGoogleForPDF cfg rt net t a) \<noteq> None"
  by (auto simp: searchGoogleForPDF_def truthy_def Let_def dest: scanItems_nonempty
           split: option.splits sum.splits)

lemma converted_downloadUrl:
  assumes "convertAIRecommendationToBook rt cfg net s i qry = Inr b"
  shows "truthy (downloadUrl b) \<longleftrightarrow> downloadUrl b \<noteq> None"
proof -
  from assms have "downloadUrl b = fst (searchGoogleForPDF cfg rt net (parsedTitle s) (authorString s))"
    by (cases "fst (fetchBookCover rt net (parsedTitle s) (authorString s))")
       (auto simp: convertAIRecommendationToBook_def Let_def)
  then show ?thesis
    by (simp only: searchGoogleForPDF_truthy)
qed

lemma awaitAll_map_Inr: "awaitAll (map Inr xs) = Inr xs"
  by (induction xs) simp_all

lemma awaitAll_InrD: "awaitAll ps = Inr xs \<Longrightarrow> ps = map Inr xs"
  by (induction ps arbitrary: xs rule: awaitAll.induct) (auto split: sum.splits)

lemma convertEach_nth:
  "i < length recs \<Longrightarrow>
     convertEach rt cfg nets qry recs ! i =
       (case recs ! i of
          Str s \<Rightarrow> convertAIRecommendationToBook rt cfg (nets i) s i qry
        | _ \<Rightarrow> Inl TypeError)"
  by (simp add: convertEach_def nth_enumerate_eq)

lemma length_convertEach: "length (convertEach rt cfg nets qry recs) = length recs"
  by (simp add: convertEach_def)

lemma convertEach_strings:
  assumes "length bs = length ss"
    and "\<forall>i<length ss. convertAIRecommendationToBook rt cfg (nets i) (ss ! i) i qry = Inr (bs ! i)"
  shows "convertEach rt cfg nets qry (map Str ss) = map Inr bs"
  using assms by (intro nth_equalityI) (simp_all add: length_convertEach convertEach_nth)

lemma convertEach_completes:
  assumes "convertEach rt cfg nets qry recs = map Inr bs"
  shows "length bs = length recs" and "list_all isStr recs"
    and "\<forall>b\<in>set bs. truthy (downloadUrl b) \<longleftrightarrow> downloadUrl b \<noteq> None"
proof -
  show len: "length bs = length recs"
    using assms length_convertEach [of rt cfg nets qry recs] by simp
  have each: "(case recs ! i of
          Str s \<Rightarrow> convertAIRecommendationToBook rt cfg (nets i) s i qry
        | _ \<Rightarrow> Inl TypeError) = Inr (bs ! i)" if "i < length recs" for i
  proof -
    have "convertEach rt cfg nets qry recs ! i = map Inr bs ! i"
      using assms by simp
    with that len show ?thesis
      by (simp add: convertEach_nth)
  qed
  have "isStr (recs ! i)" if "i < length recs" for i
    using each [OF that] by (cases "recs ! i") simp_all
  then show "list_all isStr recs"
    by (simp add: list_all_length)
  show "\<forall>b\<in>set bs. truthy (downloadUrl b) \<longleftrightarrow> downloadUrl b \<noteq> None"
  proof
    fix b assume "b \<in> set bs"
    then obtain i where i: "i < length recs" "bs ! i = b"
      using len by (auto simp: in_set_conv_nth)
    from each [OF i(1)] obtain s where "convertAIRecommendationToBook rt cfg (nets i) s i qry = Inr b"
      using i(2) by (cases "recs ! i") simp_all
    then show "truthy (downloadUrl b) \<longleftrightarrow> downloadUrl b \<noteq> None"
      by (rule converted_downloadUrl)
  qed
qed

lemma searchBooksTry_Inr:
  assumes "fst (searchBooksTry rt cfg post nets now now' c qry) = Inr r"
  shows "\<exists>aiData recs bs.
           fst (getAIRecommendations rt post now now' c qry) = Inr aiData \<and>
           getProperty aiData (js ''recommendations'') = Inr (Arr recs) \<and>
           convertEach rt cfg nets qry recs = map Inr bs \<and>
           searchResultOf qry aiData bs = Inr r"
proof -
  obtain ra c' where g: "getAIRecommendations rt post now now' c qry = (ra, c')"
    by (cases "getAIRecommendations rt post now now' c qry")
  from assms g obtain aiData where ra: "ra = Inr aiData"
    by (cases ra) (simp_all add: searchBooksTry_def)
  note s1 = assms [unfolded searchBooksTry_def g ra, simplified]
  from s1 obtain v where p: "getProperty aiData (js ''recommendations'') = Inr v"
    by (cases "getProperty aiData (js ''recommendations'')") simp_all
  from s1 p obtain recs where v: "v = Arr recs"
    by (cases v) simp_all
  note s2 = s1 [unfolded p v, simplified]
  from s2 obtain bs where a: "awaitAll (convertEach rt cfg nets qry recs) = Inr bs"
    by (cases "awaitAll (convertEach rt cfg nets qry recs)") simp_all
  from s2 a have "searchResultOf qry aiData bs = Inr r"
    by simp
  with g ra p v awaitAll_InrD [OF a] show ?thesis
    by auto
qed

subsection \<open>The examples, evaluated\<close>

lemmas string_eval = js_def trim_def isWhiteSpace_def isLineTerminator_def isWordChar_def
  startsWith_def endsWith_def stripPunctuation_def dquote_def

lemmas match_eval = parsedTitle_def authorString_def parsedAuthor_def titleAuthorMatch_def
  lazyTitle.simps separatorTail_def isBy_def

lemmas pdf_eval = searchGoogleForPDF_def credentials_def truthy_def pdfSearchRequest_def
  netLibrary_def exampleRuntime_def asciiLowerCase_def

lemma parse_dune:
  "parsedTitle (js ''Dune by Frank Herbert'') = js ''Dune''"
  "authorString (js ''Dune by Frank Herbert'') = js ''Frank Herbert''"
  "parsedAuthor (js ''Dune by Frank Herbert'') = [js ''Frank Herbert'']"
  by (simp_all add: match_eval string_eval)

lemma parse_emma:
  "parsedTitle (js ''Emma by Jane Austen'') = js ''Emma''"
  "authorString (js ''Emma by Jane Austen'') = js ''Jane Austen''"
  "parsedAuthor (js ''Emma by Jane Austen'') = [js ''Jane Austen'']"
  by (simp_all add: match_eval string_eval)

lemma parse_ulysses:
  "parsedTitle (js ''Ulysses by James Joyce'') = js ''Ulysses''"
  "authorString (js ''Ulysses by James Joyce'') = js ''James Joyce''"
  "parsedAuthor (js ''Ulysses by James Joyce'') = [js ''James Joyce'']"
  by (simp_all add: match_eval string_eval)

lemma pdf_dune:
  "fst (searchGoogleForPDF credentials exampleRuntime netLibrary (js ''Dune'') (js ''Frank Herbert'')) =
     Some (js ''https://example.org/dune.pdf'')"
  by (simp add: pdf_eval string_eval)

lemma pdf_emma:
  "fst (searchGoogleForPDF credentials exampleRuntime netLibrary (js ''Emma'') (js ''Jane Austen'')) =
     None"
  by (simp add: pdf_eval string_eval)

lemma pdf_ulysses:
  "fst (searchGoogleForPDF credentials exampleRuntime netLibrary (js ''Ulysses'') (js ''James Joyce'')) =
     Some (js ''https://example.org/ulysses.PDF'')"
  by (simp add: pdf_eval string_eval)

lemma cover_library:
  "fst (fetchBookCover exampleRuntime netLibrary t a) =
     Inr (js ''https://covers.openlibrary.org/b/id/42-L.jpg'')"
  by (simp add: fetchBookCover_def fetchBookCoverFromOpenLibrary_def netLibrary_def Let_def
      truthy_def toStringInt_def decimal.simps digitChar_def js_def)

lemma decimal_digit: "n < 10 \<Longrightarrow> decimal n = [of_nat (48 + n)]"
  by (simp add: decimal.simps digitChar_def)

lemma example_ids:
  "js ''ai-rec-'' @ decimal 0 = js ''ai-rec-0''"
  "js ''ai-rec-'' @ decimal (Suc 0) = js ''ai-rec-1''"
  "js ''ai-rec-'' @ decimal 2 = js ''ai-rec-2''"
  "js ''AI recommended for: '' @ js ''classics'' = js ''AI recommended for: classics''"
  by (simp_all add: decimal_digit js_def)

lemma conv_dune:
  "convertAIRecommendationToBook exampleRuntime credentials netLibrary (js ''Dune by Frank Herbert'') 0
     (js ''classics'') = Inr bookDune"
  by (simp add: convertAIRecommendationToBook_def parse_dune pdf_dune cover_library bookDune_def
      example_ids)

lemma conv_emma:
  "convertAIRecommendationToBook exampleRuntime credentials netLibrary (js ''Emma by Jane Austen'') 1
     (js ''classics'') = Inr bookEmma"
  by (simp add: convertAIRecommendationToBook_def parse_emma pdf_emma cover_library bookEmma_def
      example_ids)

lemma conv_ulysses:
  "convertAIRecommendationToBook exampleRuntime credentials netLibrary (js ''Ulysses by James Joyce'') 2
     (js ''classics'') = Inr bookUlysses"
  by (simp add: convertAIRecommendationToBook_def parse_ulysses pdf_ulysses cover_library
      bookUlysses_def example_ids)

lemma fetch_good:
  "getAIRecommendations exampleRuntime (chatReplies jsonGood) 0 0 Map.empty (js ''classics'') =
     (Inr valueGood,
      [normalizedQuery exampleRuntime (js ''classics'') \<mapsto> \<lparr>data = valueGood, timestamp = 0\<rparr>])"
  by (simp add: getAIRecommendations_def model_good)

lemma recommendations_good:
  "getProperty valueGood (js ''recommendations'') =
     Inr (Arr (map Str [js ''Dune by Frank Herbert'', js ''Emma by Jane Austen'',
                        js ''Ulysses by James Joyce'']))"
  by (simp add: valueGood_def js_def)

lemma conversions_good:
  "\<forall>i<length [js ''Dune by Frank Herbert'', js ''Emma by Jane Austen'', js ''Ulysses by James Joyce''].
     convertAIRecommendationToBook exampleRuntime credentials netLibrary
       ([js ''Dune by Frank Herbert'', js ''Emma by Jane Austen'', js ''Ulysses by James Joyce''] ! i)
       i (js ''classics'') =
     Inr ([bookDune, bookEmma, bookUlysses] ! i)"
proof (intro allI impI)
  fix i :: nat
  assume "i < length [js ''Dune by Frank Herbert'', js ''Emma by Jane Austen'', js ''Ulysses by James Joyce'']"
  then have "i = 0 \<or> i = 1 \<or> i = 2"
    by auto
  then show "convertAIRecommendationToBook exampleRuntime credentials netLibrary
       ([js ''Dune by Frank Herbert'', js ''Emma by Jane Austen'', js ''Ulysses by James Joyce''] ! i)
       i (js ''classics'') =
     Inr ([bookDune, bookEmma, bookUlysses] ! i)"
    using conv_dune conv_emma conv_ulysses by auto
qed

lemma searchResultOf_fields:
  assumes "searchResultOf qry aiData bs = Inr r"
  shows "books r = filter (\<lambda>b. truthy (downloadUrl b)) bs @ filter (\<lambda>b. \<not> truthy (downloadUrl b)) bs"
    and "totalResults r = length bs" and "aiRecommendationsCount r = length bs"
    and "pdfFoundCount r = length (filter (\<lambda>b. truthy (downloadUrl b)) bs)"
    and "booksWithoutPDFs r = Some (length (filter (\<lambda>b. \<not> truthy (downloadUrl b)) bs))"
    and "query r = qry"
  using assms sum_length_filter_compl [of "\<lambda>b. truthy (downloadUrl b)" bs]
  by (auto simp: searchResultOf_def Let_def split: sum.splits)

lemma searchBooks_of_try:
  "fst (searchBooksTry rt cfg post nets now now' c qry) = Inr r \<Longrightarrow>
     fst (searchBooks rt cfg post nets now now' c qry) = r"
  by (cases "searchBooksTry rt cfg post nets now now' c qry") (simp add: searchBooks_def)

lemma searchBooksTry_strings:
  assumes f: "fst (getAIRecommendations rt post now now' c qry) = Inr aiData"
    and p: "getProperty aiData (js ''recommendations'') = Inr (Arr (map Str recs))"
    and len: "length bs = length recs"
    and cv: "\<forall>i<length recs. convertAIRecommendationToBook rt cfg (nets i) (recs ! i) i qry = Inr (bs ! i)"
  shows "fst (searchBooksTry rt cfg post nets now now' c qry) = searchResultOf qry aiData bs"
proof -
  have ce: "awaitAll (convertEach rt cfg nets qry (map Str recs)) = Inr bs"
    by (simp add: convertEach_strings [OF len cv] awaitAll_map_Inr)
  obtain c' where g: "getAIRecommendations rt post now now' c qry = (Inr aiData, c')"
    using f by (cases "getAIRecommendations rt post now now' c qry") simp
  show ?thesis
    by (simp add: searchBooksTry_def g p ce)
qed

lemma searchResultOf_Obj:
  "\<exists>r. searchResultOf qry (Obj fs) bs = Inr r"
  by (simp add: searchResultOf_def Let_def split: option.splits)

lemma searchResultOf_good:
  "searchResultOf (js ''classics'') valueGood [bookDune, bookEmma, bookUlysses] = Inr resultGood"
  by (simp add: searchResultOf_def valueGood_def resultGood_def Let_def truthy_def bookDune_def
      bookEmma_def bookUlysses_def js_def)

lemma fetch_good_fst:
  "fst (getAIRecommendations exampleRuntime (chatReplies jsonGood) 0 0 Map.empty (js ''classics'')) =
     Inr valueGood"
  by (simp add: fetch_good)

lemma model_oneString:
  "getRecommendationsFromModel exampleRuntime (chatReplies jsonOneString) qry ms = Inr valueOneString"
proof -
  have 1: "trim (jsonString jsonOneString) = jsonOneString"
    by (simp add: extract_eval jsonOneString_def)
  have 2: "parseExamples jsonOneString = Some valueOneString"
    by (simp add: parseExamples_def jsonOneString_def jsonGood_def jsonNullElement_def js_def)
  have 3: "jsonOneString \<noteq> []"
    by (simp add: jsonOneString_def js_def)
  show ?thesis
    using 3
    by (simp add: getRecommendationsFromModel_def chatReplies_def messageContent_def
        extractJsonFromResponse_def exampleRuntime_def 1 2)
qed

lemma model_nullElement:
  "getRecommendationsFromModel exampleRuntime (chatReplies jsonNullElement) qry ms =
     Inr valueNullElement"
proof -
  have 1: "trim (jsonString jsonNullElement) = jsonNullElement"
    by (simp add: extract_eval jsonNullElement_def)
  have 2: "parseExamples jsonNullElement = Some valueNullElement"
    by (simp add: parseExamples_def jsonGood_def jsonNullElement_def js_def)
  have 3: "jsonNullElement \<noteq> []"
    by (simp add: jsonNullElement_def js_def)
  show ?thesis
    using 3
    by (simp add: getRecommendationsFromModel_def chatReplies_def messageContent_def
        extractJsonFromResponse_def exampleRuntime_def 1 2)
qed

text \<open>
  Claim C10, as amended. In every result that the try block of \<^verbatim>\<open>searchBooks\<close>
  returns, which is then the result of the search, the fetch did not fail, the fetched
  value has a \<^verbatim>\<open>recommendations\<close> array whose elements are all strings,
  \<open>totalResults\<close> is the length of \<open>books\<close>, which is \<open>aiRecommendationsCount\<close>, which is
  the number of recommendations, and \<open>pdfFoundCount\<close> plus \<open>booksWithoutPDFs\<close> is
  \<open>totalResults\<close>.
\<close>

theorem search_counts:
  "fst (searchBooksTry rt cfg post nets now now' c qry) = Inr r \<longrightarrow>
     fst (searchBooks rt cfg post nets now now' c qry) = r \<and>
     (\<exists>aiData recs.
        fst (getAIRecommendations rt post now now' c qry) = Inr aiData \<and>
        getProperty aiData (js ''recommendations'') = Inr (Arr recs) \<and>
        list_all isStr recs \<and>
        totalResults r = length (books r) \<and>
        length (books r) = aiRecommendationsCount r \<and>
        aiRecommendationsCount r = length recs) \<and>
     (\<exists>n. booksWithoutPDFs r = Some n \<and> pdfFoundCount r + n = totalResults r)"
proof
  assume a: "fst (searchBooksTry rt cfg post nets now now' c qry) = Inr r"
  from searchBooksTry_Inr [OF a] obtain aiData recs bs where
    f: "fst (getAIRecommendations rt post now now' c qry) = Inr aiData" and
    p: "getProperty aiData (js ''recommendations'') = Inr (Arr recs)" and
    cv: "convertEach rt cfg nets qry recs = map Inr bs" and
    sr: "searchResultOf qry aiData bs = Inr r"
    by blast
  note flds = searchResultOf_fields [OF sr]
  note cc = convertEach_completes [OF cv]
  have tot: "length (books r) = length bs"
    using sum_length_filter_compl [of "\<lambda>b. truthy (downloadUrl b)" bs] by (simp add: flds(1))
  have 1: "fst (searchBooks rt cfg post nets now now' c qry) = r"
    by (rule searchBooks_of_try [OF a])
  have 2: "\<exists>aiData recs.
        fst (getAIRecommendations rt post now now' c qry) = Inr aiData \<and>
        getProperty aiData (js ''recommendations'') = Inr (Arr recs) \<and>
        list_all isStr recs \<and>
        totalResults r = length (books r) \<and>
        length (books r) = aiRecommendationsCount r \<and>
        aiRecommendationsCount r = length recs"
    using f p cc(1,2) tot flds(2,3) by auto
  have 3: "\<exists>n. booksWithoutPDFs r = Some n \<and> pdfFoundCount r + n = totalResults r"
    using flds(2,4,5) sum_length_filter_compl [of "\<lambda>b. truthy (downloadUrl b)" bs] by simp
  from 1 2 3 show "fst (searchBooks rt cfg post nets now now' c qry) = r \<and>
     (\<exists>aiData recs.
        fst (getAIRecommendations rt post now now' c qry) = Inr aiData \<and>
        getProperty aiData (js ''recommendations'') = Inr (Arr recs) \<and>
        list_all isStr recs \<and>
        totalResults r = length (books r) \<and>
        length (books r) = aiRecommendationsCount r \<and>
        aiRecommendationsCount r = length recs) \<and>
     (\<exists>n. booksWithoutPDFs r = Some n \<and> pdfFoundCount r + n = totalResults r)"
    by blast
qed

theorem search_counts_witness:
  "fst (searchBooksTry exampleRuntime credentials (chatReplies jsonGood) (\<lambda>i. netLibrary) 0 0
          Map.empty (js ''classics'')) = Inr resultGood \<and>
   fst (searchBooks exampleRuntime credentials (chatReplies jsonGood) (\<lambda>i. netLibrary) 0 0
          Map.empty (js ''classics'')) = resultGood \<and>
   totalResults resultGood = 3 \<and> length (books resultGood) = 3 \<and>
   aiRecommendationsCount resultGood = 3 \<and> pdfFoundCount resultGood = 2 \<and>
   booksWithoutPDFs resultGood = Some 1"
proof -
  have h: "fst (searchBooksTry exampleRuntime credentials (chatReplies jsonGood) (\<lambda>i. netLibrary)
                  0 0 Map.empty (js ''classics'')) = Inr resultGood"
    using searchBooksTry_strings [OF fetch_good_fst recommendations_good _ conversions_good]
    by (simp add: searchResultOf_good)
  from search_counts [rule_format, OF h] h
  show ?thesis by (simp add: resultGood_def)
qed

text \<open>
  The claim as it was stated fails: the client returns the object it was sent, whose
  \<^verbatim>\<open>recommendations\<close> is one string and no array; the fetch has not failed, and the
  search returns a result with \<open>totalResults\<close> 0 and no \<open>booksWithoutPDFs\<close>.
\<close>

theorem search_counts_counterexample:
  "fst (getAIRecommendations exampleRuntime (chatReplies jsonOneString) 0 0 emptyCache
          (js ''classics'')) = Inr valueOneString \<and>
   getProperty valueOneString (js ''recommendations'') = Inr (Str (js ''Dune by Frank Herbert'')) \<and>
   totalResults (fst (searchBooks exampleRuntime credentials (chatReplies jsonOneString)
                        libraryEverywhere 0 0 emptyCache (js ''classics''))) = 0 \<and>
   booksWithoutPDFs (fst (searchBooks exampleRuntime credentials (chatReplies jsonOneString)
                            libraryEverywhere 0 0 emptyCache (js ''classics''))) = None"
  by (simp add: emptyCache_def searchBooks_def searchBooksTry_def getAIRecommendations_def model_oneString)
     (simp add: valueOneString_def js_def emptyResult_def)

text \<open>
  Claim C1, as amended. For every query for which the fetch returns a value whose
  \<^verbatim>\<open>recommendations\<close> is an array of strings, and for which the conversion of every
  recommendation returns a book, \<open>books\<close> is the converted books that have a download
  URL, in the order of the recommendations, followed by those that have none, in that
  order; \<open>pdfFoundCount\<close> is the number of the former and \<open>booksWithoutPDFs\<close> the number
  of the latter.
\<close>

theorem search_partition:
  "fst (getAIRecommendations rt post now now' c qry) = Inr aiData \<and>
   getProperty aiData (js ''recommendations'') = Inr (Arr (map Str recs)) \<and>
   length bs = length recs \<and>
   (\<forall>i<length recs.
      convertAIRecommendationToBook rt cfg (nets i) (recs ! i) i qry = Inr (bs ! i)) \<longrightarrow>
     books (fst (searchBooks rt cfg post nets now now' c qry)) =
       filter (\<lambda>b. downloadUrl b \<noteq> None) bs @ filter (\<lambda>b. downloadUrl b = None) bs \<and>
     pdfFoundCount (fst (searchBooks rt cfg post nets now now' c qry)) =
       length (filter (\<lambda>b. downloadUrl b \<noteq> None) bs) \<and>
     booksWithoutPDFs (fst (searchBooks rt cfg post nets now now' c qry)) =
       Some (length (filter (\<lambda>b. downloadUrl b = None) bs))"
proof (intro impI, elim conjE)
  assume f: "fst (getAIRecommendations rt post now now' c qry) = Inr aiData"
    and p: "getProperty aiData (js ''recommendations'') = Inr (Arr (map Str recs))"
    and len: "length bs = length recs"
    and cv: "\<forall>i<length recs.
               convertAIRecommendationToBook rt cfg (nets i) (recs ! i) i qry = Inr (bs ! i)"
  have tr: "\<forall>b\<in>set bs. truthy (downloadUrl b) \<longleftrightarrow> downloadUrl b \<noteq> None"
    by (rule convertEach_completes(3) [OF convertEach_strings [OF len cv]])
  have f1: "filter (\<lambda>b. truthy (downloadUrl b)) bs = filter (\<lambda>b. downloadUrl b \<noteq> None) bs"
    by (rule filter_cong [OF refl]) (use tr in blast)
  have f2: "filter (\<lambda>b. \<not> truthy (downloadUrl b)) bs = filter (\<lambda>b. downloadUrl b = None) bs"
    by (rule filter_cong [OF refl]) (use tr in blast)
  obtain fs where obj: "aiData = Obj fs"
    using p by (cases aiData) simp_all
  obtain r where r: "searchResultOf qry aiData bs = Inr r"
    using searchResultOf_Obj [of qry fs bs] obj by blast
  have "fst (searchBooksTry rt cfg post nets now now' c qry) = Inr r"
    using searchBooksTry_strings [OF f p len cv] r by simp
  then have "fst (searchBooks rt cfg post nets now now' c qry) = r"
    by (rule searchBooks_of_try)
  with searchResultOf_fields(1,4,5) [OF r]
  show "books (fst (searchBooks rt cfg post nets now now' c qry)) =
       filter (\<lambda>b. downloadUrl b \<noteq> None) bs @ filter (\<lambda>b. downloadUrl b = None) bs \<and>
     pdfFoundCount (fst (searchBooks rt cfg post nets now now' c qry)) =
       length (filter (\<lambda>b. downloadUrl b \<noteq> None) bs) \<and>
     booksWithoutPDFs (fst (searchBooks rt cfg post nets now now' c qry)) =
       Some (length (filter (\<lambda>b. downloadUrl b = None) bs))"
    by (simp only: f1 f2)
qed

theorem search_partition_witness:
  "books (fst (searchBooks exampleRuntime credentials (chatReplies jsonGood) (\<lambda>i. netLibrary) 0 0
                 Map.empty (js ''classics''))) = [bookDune, bookUlysses, bookEmma] \<and>
   pdfFoundCount (fst (searchBooks exampleRuntime credentials (chatReplies jsonGood)
                         (\<lambda>i. netLibrary) 0 0 Map.empty (js ''classics''))) = 2 \<and>
   booksWithoutPDFs (fst (searchBooks exampleRuntime credentials (chatReplies jsonGood)
                            (\<lambda>i. netLibrary) 0 0 Map.empty (js ''classics''))) = Some 1"
proof -
  have len: "length [bookDune, bookEmma, bookUlysses] =
             length [js ''Dune by Frank Herbert'', js ''Emma by Jane Austen'',
                     js ''Ulysses by James Joyce'']"
    by simp
  note h = conjI [OF fetch_good_fst conjI [OF recommendations_good conjI [OF len conversions_good]]]
  from search_partition [where nets = "\<lambda>i. netLibrary", rule_format, OF h]
  show ?thesis by (simp add: bookDune_def bookEmma_def bookUlysses_def)
qed

text \<open>
  The claim as it was stated fails: the fetch returns an array of a recommendation and
  \<^verbatim>\<open>null\<close>; the recommendation is converted to a book that has a download URL, the
  conversion of \<^verbatim>\<open>null\<close> throws, and the search returns no book and no
  \<open>booksWithoutPDFs\<close>.
\<close>

theorem search_partition_counterexample:
  "fst (getAIRecommendations exampleRuntime (chatReplies jsonNullElement) 0 0 emptyCache
          (js ''classics'')) = Inr valueNullElement \<and>
   convertAIRecommendationToBook exampleRuntime credentials netLibrary (js ''Dune by Frank Herbert'')
     0 (js ''classics'') = Inr bookDune \<and>
   downloadUrl bookDune \<noteq> None \<and>
   books (fst (searchBooks exampleRuntime credentials (chatReplies jsonNullElement)
                 libraryEverywhere 0 0 emptyCache (js ''classics''))) = [] \<and>
   pdfFoundCount (fst (searchBooks exampleRuntime credentials (chatReplies jsonNullElement)
                         libraryEverywhere 0 0 emptyCache (js ''classics''))) = 0 \<and>
   booksWithoutPDFs (fst (searchBooks exampleRuntime credentials (chatReplies jsonNullElement)
                            libraryEverywhere 0 0 emptyCache (js ''classics''))) = None"
proof -
  have p: "getProperty valueNullElement (js ''recommendations'') =
             Inr (Arr [Str (js ''Dune by Frank Herbert''), Null])"
    by (simp add: valueNullElement_def js_def)
  have ce: "awaitAll (convertEach exampleRuntime credentials libraryEverywhere (js ''classics'')
                        [Str (js ''Dune by Frank Herbert''), Null]) = Inl TypeError"
    by (simp add: libraryEverywhere_def convertEach_def enumerate_eq_zip upt_rec conv_dune)
  have "fst (searchBooks exampleRuntime credentials (chatReplies jsonNullElement)
               libraryEverywhere 0 0 emptyCache (js ''classics'')) = emptyResult (js ''classics'')"
    by (simp add: emptyCache_def searchBooks_def searchBooksTry_def getAIRecommendations_def
        model_nullElement p ce)
  then show ?thesis
    by (simp add: emptyCache_def getAIRecommendations_def model_nullElement conv_dune
        emptyResult_def bookDune_def)
qed

section \<open>Properties of the cover-image resolver\<close>

lemma firstCover_nonempty: "firstCover ds = Some u \<Longrightarrow> u \<noteq> []"
  by (induction ds) (auto simp: js_def split: option.splits if_splits)

lemma openLibrary_nonempty:
  "fst (fetchBookCoverFromOpenLibrary rt net t a) = Some u \<Longrightarrow> u \<noteq> []"
  by (auto simp: fetchBookCoverFromOpenLibrary_def Let_def js_def dest: firstCover_nonempty
           split: sum.splits option.splits list.splits)

lemma openLibrary_requests:
  "GoogleBooksGet x \<notin> set (snd (fetchBookCoverFromOpenLibrary rt net t a))"
  by (auto simp: fetchBookCoverFromOpenLibrary_def Let_def
           split: sum.splits option.splits list.splits)

lemma fetchBookCover_first_source:
  assumes "fst (fetchBookCoverFromOpenLibrary rt net t a) = Some u"
  shows "fetchBookCover rt net t a = (Inr u, snd (fetchBookCoverFromOpenLibrary rt net t a))"
    and "GoogleBooksGet x \<notin> set (snd (fetchBookCover rt net t a))"
proof -
  from assms have "u \<noteq> []"
    by (rule openLibrary_nonempty)
  with assms show 1: "fetchBookCover rt net t a = (Inr u, snd (fetchBookCoverFromOpenLibrary rt net t a))"
    by (cases "fetchBookCoverFromOpenLibrary rt net t a") (simp add: fetchBookCover_def truthy_def)
  show "GoogleBooksGet x \<notin> set (snd (fetchBookCover rt net t a))"
    by (simp add: 1 openLibrary_requests)
qed

lemma fetchBookCover_placeholder:
  assumes "fst (fetchBookCoverFromOpenLibrary rt net t a) = None"
    and "fst (fetchBookCoverFromGoogleBooks net t a) = None"
  shows "fst (fetchBookCover rt net t a) = placeholderCover t a"
  using assms
  by (cases "fetchBookCoverFromOpenLibrary rt net t a"; cases "fetchBookCoverFromGoogleBooks net t a")
     (simp add: fetchBookCover_def truthy_def)

lemma openLibrary_silent:
  "fetchBookCoverFromOpenLibrary exampleRuntime netSilent t a = (None, [OpenLibraryGet
     (js ''title:'' @ [dquote] @ asciiLowerCase (trim (stripPunctuation t)) @ [dquote] @
                        js '' author:'' @ [dquote] @ asciiLowerCase (trim (stripPunctuation a)) @ [dquote])])"
  by (simp add: fetchBookCoverFromOpenLibrary_def netSilent_def exampleRuntime_def Let_def)

lemma googleBooks_silent:
  "fst (fetchBookCoverFromGoogleBooks netSilent t a) = None"
  by (simp add: fetchBookCoverFromGoogleBooks_def netSilent_def Let_def)

lemma fetchBookCover_silent:
  "fst (fetchBookCover exampleRuntime netSilent t a) = placeholderCover t a"
  by (cases "fetchBookCoverFromGoogleBooks netSilent t a")
     (use googleBooks_silent [of t a] in \<open>simp add: fetchBookCover_def openLibrary_silent truthy_def\<close>)

lemma encode_As: "encodeURIComponent (replicate n 0x41 @ [0xD83D]) = Inl URIError"
  by (induction n) (simp_all add: uriUnreserved_def isLowSurrogate_def isHighSurrogate_def)

text \<open>
  Claim C6. When Open Library yields a cover URL, \<^verbatim>\<open>fetchBookCover\<close> returns it and
  has sent no request to Google Books, and when neither source yields one it returns
  what \<open>placeholderCover\<close> returns (the lemmas \<open>fetchBookCover_first_source\<close> and
  \<open>fetchBookCover_placeholder\<close> above). But it does not return a URL for every title
  and author: the placeholder is built outside every try block from the first 30 code
  units of the title and the first 20 of the author, and \<^verbatim>\<open>encodeURIComponent\<close>
  throws on an unpaired surrogate. For a title of 29 letters followed by a character
  outside the Basic Multilingual Plane, which no source knows, the truncation cuts the
  surrogate pair and \<^verbatim>\<open>fetchBookCover\<close> rejects with a \<^verbatim>\<open>URIError\<close>.
\<close>

theorem fetchBookCover_unpaired_surrogate:
  "fst (fetchBookCover exampleRuntime netSilent astralTitle (js ''Unknown Author'')) = Inl URIError"
proof -
  have "substring0 astralTitle 30 = replicate 29 0x41 @ [0xD83D]"
    by (simp add: substring0_def astralTitle_def)
  then show ?thesis
    by (simp add: fetchBookCover_silent placeholderCover_def encode_As)
qed

section \<open>Properties of the extraction of the JSON text\<close>

lemma startsWith_iff: "startsWith s p \<longleftrightarrow> (\<exists>r. s = p @ r)"
proof
  assume "startsWith s p"
  then have "s = p @ drop (length p) s"
    by (metis append_take_drop_id startsWith_def)
  then show "\<exists>r. s = p @ r" ..
next
  assume "\<exists>r. s = p @ r"
  then show "startsWith s p"
    by (auto simp: startsWith_def)
qed

lemma fence_eq: "fence = [0x60, 0x60, 0x60]"
  by (simp add: fence_def js_def)

lemma startsWith_fence: "startsWith s fence \<longleftrightarrow> (\<exists>r. s = 0x60 # 0x60 # 0x60 # r)"
  by (simp add: startsWith_iff fence_eq)

lemma backtick_not_ws: "\<not> isWhiteSpace 0x60"
  by (simp add: isWhiteSpace_def isLineTerminator_def)

lemma ws_not_fence: "isWhiteSpace c \<Longrightarrow> \<not> startsWith (c # cs) fence"
  using backtick_not_ws by (auto simp: startsWith_fence)

lemma splitAtFence_eq:
  "splitAtFence s = Some (before, rest) \<Longrightarrow> s = before @ fence @ rest"
proof (induction s arbitrary: before)
  case Nil
  then show ?case by simp
next
  case (Cons c cs)
  show ?case
  proof (cases "startsWith (c # cs) fence")
    case True
    with Cons.prems have "before = []" "rest = drop 3 (c # cs)"
      by simp_all
    moreover from True obtain r where "c # cs = 0x60 # 0x60 # 0x60 # r"
      by (auto simp: startsWith_fence)
    ultimately show ?thesis
      by (simp add: fence_eq)
  next
    case False
    with Cons.prems obtain b where "splitAtFence cs = Some (b, rest)" "before = c # b"
      by (auto split: option.splits)
    with Cons.IH [of b] show ?thesis
      by simp
  qed
qed

lemma splitAtFence_ws:
  "isWhiteSpace w \<Longrightarrow>
     splitAtFence (w # s) =
       (case splitAtFence s of None \<Rightarrow> None | Some (b, r) \<Rightarrow> Some (w # b, r))"
  by (simp add: ws_not_fence)

lemma splitAtFence_dropWhile:
  "splitAtFence (dropWhile isWhiteSpace s) =
     (case splitAtFence s of None \<Rightarrow> None | Some (b, r) \<Rightarrow> Some (dropWhile isWhiteSpace b, r))"
proof (induction s)
  case Nil
  then show ?case by simp
next
  case (Cons c cs)
  show ?case
  proof (cases "isWhiteSpace c")
    case True
    then show ?thesis
      using Cons.IH by (simp add: ws_not_fence split: option.splits)
  next
    case False
    then show ?thesis
      by (simp split: option.splits)
  qed
qed

lemma closesFence_iff:
  "closesFence r \<longleftrightarrow> (\<exists>b rest. splitAtFence r = Some (b, rest) \<and> list_all isWhiteSpace b)"
proof (induction r)
  case Nil
  then show ?case
    by (simp add: closesFence_def startsWith_fence)
next
  case (Cons c cs)
  show ?case
  proof (cases "isWhiteSpace c")
    case True
    then have "closesFence (c # cs) = closesFence cs"
      by (simp add: closesFence_def)
    with True Cons.IH show ?thesis
      by (auto simp: ws_not_fence split: option.splits)
  next
    case False
    then have "closesFence (c # cs) = startsWith (c # cs) fence"
      by (simp add: closesFence_def)
    with False show ?thesis
      by (auto split: option.splits)
  qed
qed

lemma lazyCapture_eq:
  "lazyCapture g r =
     (case splitAtFence r of None \<Rightarrow> None | Some (body, rest) \<Rightarrow> Some (g @ rstrip body))"
proof (induction r arbitrary: g)
  case Nil
  show ?case
    by (simp add: lazyCapture.simps closesFence_def startsWith_fence)
next
  case (Cons c cs)
  show ?case
  proof (cases "closesFence (c # cs)")
    case True
    then obtain b rest where "splitAtFence (c # cs) = Some (b, rest)" "list_all isWhiteSpace b"
      by (auto simp: closesFence_iff)
    with True show ?thesis
      by (simp add: lazyCapture.simps [of g "c # cs"] rstrip_ws)
  next
    case False
    then have nf: "\<not> startsWith (c # cs) fence"
      by (auto simp: closesFence_iff)
    have step: "lazyCapture g (c # cs) = lazyCapture (g @ [c]) cs"
      using False by (simp add: lazyCapture.simps [of g "c # cs"])
    show ?thesis
    proof (cases "splitAtFence cs")
      case None
      with nf step Cons.IH [of "g @ [c]"] show ?thesis
        by simp
    next
      case (Some p)
      obtain b rest where p: "p = (b, rest)"
        by (cases p)
      have split: "splitAtFence (c # cs) = Some (c # b, rest)"
        using nf Some p by simp
      have "rstrip (c # b) = c # rstrip b"
      proof (cases "list_all isWhiteSpace b")
        case True
        have "\<not> isWhiteSpace c"
        proof
          assume "isWhiteSpace c"
          with True split have "closesFence (c # cs)"
            by (subst closesFence_iff) simp
          with False show False ..
        qed
        with True show ?thesis
          by (simp add: rstrip_single rstrip_ws)
      next
        case False
        then show ?thesis
          by (rule rstrip_Cons)
      qed
      with step Cons.IH [of "g @ [c]"] Some p split show ?thesis
        by simp
    qed
  qed
qed

lemma afterTag_eq:
  "afterTag r = (case splitAtFence r of None \<Rightarrow> None | Some (body, rest) \<Rightarrow> Some (trim body))"
  by (simp add: afterTag_def lazyCapture_eq splitAtFence_dropWhile trim_rstrip split: option.splits)

lemma splitAtFence_json:
  "splitAtFence (js ''json'' @ r) =
     (case splitAtFence r of None \<Rightarrow> None | Some (b, rest) \<Rightarrow> Some (js ''json'' @ b, rest))"
  by (simp add: js_def startsWith_fence split: option.splits)

lemma matchFenceAt_eq:
  assumes "startsWith s fence"
  shows "matchFenceAt s =
     (case splitAtFence (drop 3 s) of
        None \<Rightarrow> None
      | Some (body, rest) \<Rightarrow> Some (trim (dropJsonTag body)))"
proof (cases "startsWith (drop 3 s) (js ''json'')")
  case True
  then obtain r' where r': "drop 3 s = js ''json'' @ r'"
    by (auto simp: startsWith_iff)
  have d4: "drop 4 (js ''json'' @ x) = x" for x :: jsstring
    by (simp add: js_def)
  have sw: "startsWith (js ''json'' @ x) (js ''json'')" for x :: jsstring
    by (simp add: startsWith_iff)
  have "matchFenceAt s =
          (case afterTag r' of Some g \<Rightarrow> Some g | None \<Rightarrow> afterTag (js ''json'' @ r'))"
    using assms by (simp add: matchFenceAt_def Let_def r' d4 sw del: drop_append)
  then show ?thesis
    by (cases "splitAtFence r'")
       (auto simp: r' d4 afterTag_eq splitAtFence_json dropJsonTag_def sw simp del: drop_append)
next
  case False
  have "\<not> startsWith body (js ''json'')" if "splitAtFence (drop 3 s) = Some (body, rest)" for body rest
  proof
    assume "startsWith body (js ''json'')"
    then obtain x where "body = js ''json'' @ x"
      by (auto simp: startsWith_iff)
    with splitAtFence_eq [OF that] have "startsWith (drop 3 s) (js ''json'')"
      by (simp add: startsWith_iff)
    with False show False ..
  qed
  then show ?thesis
    using assms False
    by (auto simp: matchFenceAt_def Let_def afterTag_eq dropJsonTag_def split: option.splits)
qed

lemma splitAtFence_None_drop:
  "splitAtFence x = None \<Longrightarrow> splitAtFence (drop n x) = None"
proof (induction x arbitrary: n)
  case Nil
  then show ?case by simp
next
  case (Cons c cs)
  then have "splitAtFence cs = None"
    by (auto split: if_splits option.splits)
  with Cons show ?case
    by (cases n) simp_all
qed

lemma matchFence_eq:
  "matchFence s = (case fencedBlock s of None \<Rightarrow> None | Some body \<Rightarrow> Some (trim (dropJsonTag body)))"
proof (induction s)
  case Nil
  show ?case
    by (simp add: matchFence.simps [of "[]"] matchFenceAt_def startsWith_fence fencedBlock_def)
next
  case (Cons c cs)
  show ?case
  proof (cases "startsWith (c # cs) fence")
    case True
    then have sp: "splitAtFence (c # cs) = Some ([], drop 3 (c # cs))"
      by simp
    show ?thesis
    proof (cases "splitAtFence (drop 3 (c # cs))")
      case None
      then have at: "matchFenceAt (c # cs) = None"
        by (simp add: matchFenceAt_eq [OF True])
      have "fencedBlock cs = None"
      proof (cases "splitAtFence cs")
        case None
        then show ?thesis
          by (simp add: fencedBlock_def)
      next
        case (Some p)
        obtain b r where p: "p = (b, r)"
          by (cases p)
        from splitAtFence_eq [OF Some [unfolded p]] have "drop (length b + 3) cs = r"
          by (simp add: fence_eq)
        moreover have "drop (length b + 1) (drop 2 cs) = drop (length b + 3) cs"
          by (simp add: numeral_3_eq_3)
        ultimately have "r = drop (length b + 1) (drop 2 cs)"
          by (simp only:)
        moreover have "splitAtFence (drop 2 cs) = None"
          using None by simp
        ultimately have "splitAtFence r = None"
          by (simp only: splitAtFence_None_drop)
        with Some p show ?thesis
          by (simp add: fencedBlock_def)
      qed
      with at Cons.IH sp None show ?thesis
        by (simp add: matchFence.simps [of "c # cs"] fencedBlock_def)
    next
      case (Some p)
      then show ?thesis
        using sp by (simp add: matchFence.simps [of "c # cs"] matchFenceAt_eq [OF True]
            fencedBlock_def split: prod.splits)
    qed
  next
    case False
    then have "matchFenceAt (c # cs) = None"
      by (simp add: matchFenceAt_def)
    moreover have "fencedBlock (c # cs) = fencedBlock cs"
      using False by (simp add: fencedBlock_def split: option.splits)
    ultimately show ?thesis
      using Cons.IH by (simp add: matchFence.simps [of "c # cs"])
  qed
qed

lemma jsonString_eq:
  "trim (jsonString reply) =
     (case fencedBlock reply of None \<Rightarrow> trim reply | Some body \<Rightarrow> trim (dropJsonTag body))"
  by (simp add: jsonString_def matchFence_eq trim_trim split: option.splits)

text \<open>
  Claim C7, as amended. For every reply, \<^verbatim>\<open>extractJsonFromResponse\<close> takes what stands
  between the first \<^verbatim>\<open>```\<close> of the reply and the next one, without the tag
  \<^verbatim>\<open>json\<close> when the block opens with it, or the whole reply when it has no such
  block; it strips the white space at both ends and gives the text to \<^verbatim>\<open>JSON.parse\<close>.
  It returns the parsed value, and raises the \<^verbatim>\<open>SyntaxError\<close> of \<^verbatim>\<open>JSON.parse\<close>, in
  either case, when the text is no JSON.
\<close>

theorem extractJsonFromResponse_fenced:
  "extractJsonFromResponse rt reply =
     (case JSON_parse rt
             (case fencedBlock reply of
                None \<Rightarrow> trim reply
              | Some body \<Rightarrow> trim (dropJsonTag body)) of
        None \<Rightarrow> Inl SyntaxError
      | Some v \<Rightarrow> Inr v)"
  by (simp add: extractJsonFromResponse_def jsonString_eq)

text \<open>
  The claim as it was stated fails: what is parsed is not exactly the content of the
  block. In a reply of three lines, the fences around the line \<^verbatim>\<open>{}\<close> and the tag
  \<^verbatim>\<open>json\<close> on the first, the block's content starts with the tag and is no JSON, yet
  the parser returns the empty object. A tag other than \<^verbatim>\<open>json\<close> is not dropped.
\<close>

theorem extractJsonFromResponse_counterexample:
  "fencedBlock fencedReply = Some (js ''json'' @ [0x0A] @ js ''{}'' @ [0x0A]) \<and>
   JSON_parse exampleRuntime (trim (js ''json'' @ [0x0A] @ js ''{}'' @ [0x0A])) = None \<and>
   extractJsonFromResponse exampleRuntime fencedReply = Inr (Obj []) \<and>
   trim (jsonString (js ''```js {}```'')) = js ''js {}''"
proof -
  have 1: "fencedBlock fencedReply = Some (js ''json'' @ [0x0A] @ js ''{}'' @ [0x0A])"
    by (simp add: fencedBlock_def fencedReply_def js_def startsWith_fence)
  have 2: "JSON_parse exampleRuntime (trim (js ''json'' @ [0x0A] @ js ''{}'' @ [0x0A])) = None"
    by (simp add: exampleRuntime_def parseExamples_def jsonGood_def jsonNullElement_def
        jsonOneString_def jsonWrongKey_def string_eval)
  have 3: "trim (jsonString fencedReply) = js ''{}''"
    by (simp add: jsonString_eq 1 dropJsonTag_def startsWith_iff) (simp add: string_eval)
  have 4: "extractJsonFromResponse exampleRuntime fencedReply = Inr (Obj [])"
    by (simp add: extractJsonFromResponse_def 3 exampleRuntime_def parseExamples_def)
  have 5: "fencedBlock (js ''```js {}```'') = Some (js ''js {}'')"
    by (simp add: fencedBlock_def js_def startsWith_fence)
  have 6: "trim (jsonString (js ''```js {}```'')) = js ''js {}''"
    by (simp add: jsonString_eq 5 dropJsonTag_def) (simp add: string_eval)
  from 1 2 4 6 show ?thesis
    by simp
qed

section \<open>Properties of the conversion\<close>

lemma split_nonempty: "split c s \<noteq> []"
  by (induction s) (auto split: list.splits)

lemma split_ws_prefix:
  assumes "list_all isWhiteSpace w" and "\<not> isWhiteSpace c"
  shows "map trim (split c (w @ x)) = map trim (split c x)"
  using assms(1)
proof (induction w)
  case Nil
  then show ?case by simp
next
  case (Cons a w)
  then have a: "isWhiteSpace a" and w: "list_all isWhiteSpace w"
    by simp_all
  from a assms(2) have "a \<noteq> c"
    by auto
  obtain p ps where s: "split c (w @ x) = p # ps"
    using split_nonempty [of c "w @ x"] by (cases "split c (w @ x)") auto
  have "trim (a # p) = trim p"
    using trim_ws_prefix [of "[a]" p] a by simp
  with \<open>a \<noteq> c\<close> s Cons.IH [OF w] show ?case
    by simp
qed

lemma split_no_separator: "c \<notin> set w \<Longrightarrow> split c w = [w]"
  by (induction w) auto

lemma split_ws_suffix:
  assumes "list_all isWhiteSpace w" and "\<not> isWhiteSpace c"
  shows "split c (x @ w) = butlast (split c x) @ [last (split c x) @ w]"
proof (induction x)
  case Nil
  have "c \<notin> set w"
    using assms by (auto simp: list_all_iff)
  then show ?case
    by (simp add: split_no_separator)
next
  case (Cons a x)
  obtain p ps where s: "split c x = p # ps"
    using split_nonempty [of c x] by (cases "split c x") auto
  show ?case
  proof (cases "a = c")
    case True
    with Cons.IH s show ?thesis
      by simp
  next
    case False
    with Cons.IH s show ?thesis
      by (cases ps) simp_all
  qed
qed

lemma split_trim:
  assumes "\<not> isWhiteSpace c"
  shows "map trim (split c (trim x)) = map trim (split c x)"
proof -
  obtain w1 w2 where x: "x = w1 @ trim x @ w2" and w: "list_all isWhiteSpace w1" "list_all isWhiteSpace w2"
    using trim_decomposition by blast
  have "map trim (split c (trim x @ w2)) =
        map trim (butlast (split c (trim x)) @ [last (split c (trim x)) @ w2])"
    by (simp only: split_ws_suffix [OF w(2) assms])
  also have "\<dots> = map trim (butlast (split c (trim x)) @ [last (split c (trim x))])"
    by (simp add: trim_ws_suffix [OF w(2)])
  also have "\<dots> = map trim (split c (trim x))"
    by (simp add: split_nonempty)
  finally have "map trim (split c (trim x @ w2)) = map trim (split c (trim x))" .
  moreover have "map trim (split c (w1 @ (trim x @ w2))) = map trim (split c (trim x @ w2))"
    by (rule split_ws_prefix [OF w(1) assms])
  ultimately show ?thesis
    using x by simp
qed

lemma comma_not_ws: "\<not> isWhiteSpace 0x2C"
  by (simp add: isWhiteSpace_def isLineTerminator_def)

lemma isBy_not_ws: "isBy b y \<Longrightarrow> \<not> isWhiteSpace b"
  by (auto simp: isBy_def isWhiteSpace_def isLineTerminator_def)

lemma takeWhile_ws: "list_all isWhiteSpace (takeWhile isWhiteSpace s)"
  by (auto simp: list_all_iff dest: set_takeWhileD)

lemma separatorTail_Some:
  assumes "separatorTail r = Some g2"
  shows "\<exists>w1 b y w2. r = w1 @ [b, y] @ w2 @ g2 \<and> w1 \<noteq> [] \<and> list_all isWhiteSpace w1 \<and>
           isBy b y \<and> w2 \<noteq> [] \<and> list_all isWhiteSpace w2 \<and> \<not> list_ex isLineTerminator g2"
proof -
  from assms have w1: "takeWhile isWhiteSpace r \<noteq> []"
    by (auto simp: separatorTail_def split: if_splits)
  with assms obtain b y r2 where d: "dropWhile isWhiteSpace r = b # y # r2"
    and c: "isBy b y" "takeWhile isWhiteSpace r2 \<noteq> []"
           "\<not> list_ex isLineTerminator (dropWhile isWhiteSpace r2)"
    and g2: "g2 = dropWhile isWhiteSpace r2"
    by (auto simp: separatorTail_def split: if_splits list.splits)
  have "r = takeWhile isWhiteSpace r @ dropWhile isWhiteSpace r"
    by simp
  also have "\<dots> = takeWhile isWhiteSpace r @ [b, y] @ takeWhile isWhiteSpace r2 @ g2"
    by (simp add: d g2)
  finally have "r = takeWhile isWhiteSpace r @ [b, y] @ takeWhile isWhiteSpace r2 @ g2" .
  with w1 c g2 takeWhile_ws show ?thesis
    by blast
qed

lemma separatorTail_complete:
  assumes "w1 \<noteq> []" "list_all isWhiteSpace w1" "isBy b y" "w2 \<noteq> []" "list_all isWhiteSpace w2"
    and "\<not> list_ex isLineTerminator post"
  shows "separatorTail (w1 @ [b, y] @ w2 @ post) = Some (dropWhile isWhiteSpace post)"
proof -
  have nb: "\<not> isWhiteSpace b"
    using assms(3) by (rule isBy_not_ws)
  have t1: "takeWhile isWhiteSpace (w1 @ [b, y] @ w2 @ post) = w1"
    using assms(2) nb by (simp add: takeWhile_append2 list_all_iff)
  have d1: "dropWhile isWhiteSpace (w1 @ [b, y] @ w2 @ post) = b # y # w2 @ post"
    using assms(2) nb by (simp add: dropWhile_append2 list_all_iff)
  have t2: "takeWhile isWhiteSpace (w2 @ post) = w2 @ takeWhile isWhiteSpace post"
    using assms(5) by (simp add: takeWhile_append2 list_all_iff)
  have d2: "dropWhile isWhiteSpace (w2 @ post) = dropWhile isWhiteSpace post"
    using assms(5) by (simp add: dropWhile_append2 list_all_iff)
  have lt: "\<not> list_ex isLineTerminator (dropWhile isWhiteSpace post)"
    using assms(6) by (auto simp: list_ex_iff dest: set_dropWhileD)
  show ?thesis
    unfolding separatorTail_def t1 d1
    using assms(1,3,4) lt by (simp add: t2 d2)
qed

lemma lazyTitle_Some:
  assumes "lazyTitle g r = Some (g1, g2)"
  shows "\<exists>m w1 b y w2. g1 = g @ m \<and> r = m @ w1 @ [b, y] @ w2 @ g2 \<and>
           \<not> list_ex isLineTerminator m \<and> w1 \<noteq> [] \<and> list_all isWhiteSpace w1 \<and> isBy b y \<and>
           w2 \<noteq> [] \<and> list_all isWhiteSpace w2 \<and> \<not> list_ex isLineTerminator g2"
  using assms
proof (induction r arbitrary: g)
  case Nil
  then show ?case
    by (simp add: lazyTitle.simps [of g "[]"] separatorTail_def)
next
  case (Cons c cs)
  show ?case
  proof (cases "separatorTail (c # cs)")
    case (Some t)
    with Cons.prems have "g1 = g" "t = g2"
      by (simp_all add: lazyTitle.simps [of g "c # cs"])
    with separatorTail_Some [OF Some] show ?thesis
      by fastforce
  next
    case None
    with Cons.prems have c: "\<not> isLineTerminator c"
      and l: "lazyTitle (g @ [c]) cs = Some (g1, g2)"
      by (simp_all add: lazyTitle.simps [of g "c # cs"] split: if_splits)
    from Cons.IH [OF l] obtain m w1 b y w2 where
      "g1 = (g @ [c]) @ m" "cs = m @ w1 @ [b, y] @ w2 @ g2" "\<not> list_ex isLineTerminator m"
      "w1 \<noteq> []" "list_all isWhiteSpace w1" "isBy b y" "w2 \<noteq> []" "list_all isWhiteSpace w2"
      "\<not> list_ex isLineTerminator g2"
      by blast
    with c have "g1 = g @ (c # m) \<and> c # cs = (c # m) @ w1 @ [b, y] @ w2 @ g2 \<and>
           \<not> list_ex isLineTerminator (c # m) \<and> w1 \<noteq> [] \<and> list_all isWhiteSpace w1 \<and> isBy b y \<and>
           w2 \<noteq> [] \<and> list_all isWhiteSpace w2 \<and> \<not> list_ex isLineTerminator g2"
      by simp
    then show ?thesis
      by blast
  qed
qed

lemma lazyTitle_complete:
  assumes "\<not> list_ex isLineTerminator m" and "separatorTail rest \<noteq> None"
  shows "\<exists>g1 g2. lazyTitle g (m @ rest) = Some (g1, g2) \<and> length g1 \<le> length g + length m"
  using assms(1)
proof (induction m arbitrary: g)
  case Nil
  from assms(2) obtain g2 where "separatorTail rest = Some g2"
    by auto
  then show ?case
    by (simp add: lazyTitle.simps [of g rest])
next
  case (Cons c m)
  show ?case
  proof (cases "separatorTail ((c # m) @ rest)")
    case (Some t)
    then show ?thesis
      by (simp add: lazyTitle.simps [of g "c # m @ rest"])
  next
    case None
    from Cons.prems have c: "\<not> isLineTerminator c" and m: "\<not> list_ex isLineTerminator m"
      by simp_all
    from Cons.IH [OF m, of "g @ [c]"] obtain g1 g2 where
      "lazyTitle (g @ [c]) (m @ rest) = Some (g1, g2)" "length g1 \<le> length (g @ [c]) + length m"
      by blast
    with None c show ?thesis
      by (simp add: lazyTitle.simps [of g "c # m @ rest"])
  qed
qed

lemma hasBySeparator_append:
  "isWhiteSpace w \<Longrightarrow> isBy b y \<Longrightarrow> isWhiteSpace w' \<Longrightarrow>
     hasBySeparator (before @ w # b # y # w' # rest)"
  by (induction before) simp_all

lemma separator_hasBySeparator:
  assumes "recommendation = m @ w1 @ [b, y] @ w2 @ g2"
    and w: "w1 \<noteq> []" "list_all isWhiteSpace w1" "isBy b y" "w2 \<noteq> []" "list_all isWhiteSpace w2"
  shows "hasBySeparator recommendation"
proof -
  from w(1,2) obtain u w where w1: "w1 = u @ [w]" "isWhiteSpace w"
    by (cases w1 rule: rev_cases) simp_all
  from w(4,5) obtain w' v where w2: "w2 = w' # v" "isWhiteSpace w'"
    by (cases w2) simp_all
  have "recommendation = (m @ u) @ w # b # y # w' # (v @ g2)"
    by (simp add: assms(1) w1 w2)
  then show ?thesis
    by (simp only: hasBySeparator_append [OF w1(2) w(3) w2(2)])
qed

lemma match_hasBySeparator:
  assumes "titleAuthorMatch recommendation = Some (g1, g2)"
  shows "hasBySeparator recommendation"
proof -
  from lazyTitle_Some [OF assms [unfolded titleAuthorMatch_def]] obtain m w1 b y w2 where
    "recommendation = m @ w1 @ [b, y] @ w2 @ g2"
    "w1 \<noteq> []" "list_all isWhiteSpace w1" "isBy b y" "w2 \<noteq> []" "list_all isWhiteSpace w2"
    by blast
  then show ?thesis
    by (rule separator_hasBySeparator)
qed

lemma match_decomposition:
  assumes m: "titleAuthorMatch recommendation = Some (g1, g2)"
  shows "\<exists>w1 b y w2.
           recommendation = g1 @ w1 @ [b, y] @ w2 @ g2 \<and>
           \<not> list_ex isLineTerminator g1 \<and> w1 \<noteq> [] \<and> list_all isWhiteSpace w1 \<and> isBy b y \<and>
           w2 \<noteq> [] \<and> list_all isWhiteSpace w2 \<and> \<not> list_ex isLineTerminator g2 \<and>
           parsedTitle recommendation = trim g1 \<and>
           parsedTitle recommendation = trim (g1 @ w1) \<and>
           parsedAuthor recommendation = map trim (split 0x2C g2) \<and>
           parsedAuthor recommendation = map trim (split 0x2C (w2 @ g2))"
proof -
  from lazyTitle_Some [OF m [unfolded titleAuthorMatch_def]] obtain w1 b y w2 where
    r: "recommendation = g1 @ w1 @ [b, y] @ w2 @ g2" and
    w: "\<not> list_ex isLineTerminator g1" "w1 \<noteq> []" "list_all isWhiteSpace w1" "isBy b y" "w2 \<noteq> []"
       "list_all isWhiteSpace w2" "\<not> list_ex isLineTerminator g2"
    by auto
  have t: "parsedTitle recommendation = trim g1"
    by (simp add: parsedTitle_def m)
  have t': "parsedTitle recommendation = trim (g1 @ w1)"
    by (simp add: parsedTitle_def m trim_ws_suffix [OF w(3)])
  have "parsedAuthor recommendation = map trim (split 0x2C (trim g2))"
    by (simp add: parsedAuthor_def authorString_def m)
  also have "\<dots> = map trim (split 0x2C g2)"
    by (rule split_trim [OF comma_not_ws])
  finally have a: "parsedAuthor recommendation = map trim (split 0x2C g2)" .
  also have "\<dots> = map trim (split 0x2C (w2 @ g2))"
    by (rule split_ws_prefix [OF w(6) comma_not_ws, symmetric])
  finally have a': "parsedAuthor recommendation = map trim (split 0x2C (w2 @ g2))" .
  from r w t t' a a' show ?thesis
    by blast
qed

lemma unknown_author: "map trim (split 0x2C (js ''Unknown Author'')) = [js ''Unknown Author'']"
  by (simp add: string_eval)

lemma no_match:
  assumes "titleAuthorMatch recommendation = None"
  shows "parsedTitle recommendation = recommendation"
    and "authorString recommendation = js ''Unknown Author''"
    and "parsedAuthor recommendation = [js ''Unknown Author'']"
  using assms by (simp_all add: parsedTitle_def parsedAuthor_def authorString_def unknown_author)

lemma pdf_newline:
  "fst (searchGoogleForPDF credentials exampleRuntime netLibrary
          (js ''Dune by Frank Herbert'' @ [0x0A]) (js ''Unknown Author'')) = None"
  by (simp add: pdf_eval string_eval)

text \<open>
  Claim C3. The converter parses \<^verbatim>\<open>"<title> by <author>"\<close> with the pattern
  \<^verbatim>\<open>/^(.*?)\s+by\s+(.*)$/i\<close>, in which \<^verbatim>\<open>.\<close> stops at a line terminator. The
  recommendation matches exactly when it is a text, white space, \<^verbatim>\<open>by\<close> in either
  case, white space and a text, with no line terminator in either text. The title is
  then the text before the first such \<^verbatim>\<open>by\<close>, trimmed, and the author list is the
  text after it, split at the commas, each piece trimmed. In every other case, that is
  when the recommendation has no \<^verbatim>\<open>by\<close> between white space or when each such
  \<^verbatim>\<open>by\<close> has a line terminator in the text before it or in the text after it, the
  title is the whole recommendation and the author list is the one author
  \<^verbatim>\<open>Unknown Author\<close>. When the cover lookup returns, the conversion returns the book
  with that title and that author list, and no book of a conversion has another title
  or author list.
\<close>

theorem title_author_parsing:
  "(titleAuthorMatch recommendation = Some (g1, g2) \<longrightarrow>
      (\<exists>w1 b y w2.
         recommendation = g1 @ w1 @ [b, y] @ w2 @ g2 \<and>
         \<not> list_ex isLineTerminator g1 \<and> w1 \<noteq> [] \<and> list_all isWhiteSpace w1 \<and> isBy b y \<and>
         w2 \<noteq> [] \<and> list_all isWhiteSpace w2 \<and> \<not> list_ex isLineTerminator g2 \<and>
         parsedTitle recommendation = trim (g1 @ w1) \<and>
         parsedAuthor recommendation = map trim (split 0x2C (w2 @ g2)))) \<and>
   (recommendation = before @ v1 @ [c, d] @ v2 @ after \<and>
    \<not> list_ex isLineTerminator before \<and> v1 \<noteq> [] \<and> list_all isWhiteSpace v1 \<and> isBy c d \<and>
    v2 \<noteq> [] \<and> list_all isWhiteSpace v2 \<and> \<not> list_ex isLineTerminator after \<longrightarrow>
      (\<exists>h1 u1 p q u2 h2.
         titleAuthorMatch recommendation = Some (h1, h2) \<and> length h1 \<le> length before \<and>
         recommendation = h1 @ u1 @ [p, q] @ u2 @ h2 \<and>
         \<not> list_ex isLineTerminator h1 \<and> u1 \<noteq> [] \<and> list_all isWhiteSpace u1 \<and> isBy p q \<and>
         u2 \<noteq> [] \<and> list_all isWhiteSpace u2 \<and> \<not> list_ex isLineTerminator h2 \<and>
         parsedTitle recommendation = trim h1 \<and>
         parsedAuthor recommendation = map trim (split 0x2C h2))) \<and>
   ((\<forall>t1 s1 k l s2 t2.
       recommendation = t1 @ s1 @ [k, l] @ s2 @ t2 \<and> s1 \<noteq> [] \<and> list_all isWhiteSpace s1 \<and>
       isBy k l \<and> s2 \<noteq> [] \<and> list_all isWhiteSpace s2 \<longrightarrow>
         list_ex isLineTerminator t1 \<or> list_ex isLineTerminator t2) \<longrightarrow>
      titleAuthorMatch recommendation = None \<and>
      parsedTitle recommendation = recommendation \<and>
      parsedAuthor recommendation = [js ''Unknown Author'']) \<and>
   (titleAuthorMatch recommendation = None \<longrightarrow>
      parsedTitle recommendation = recommendation \<and>
      parsedAuthor recommendation = [js ''Unknown Author'']) \<and>
   (\<not> hasBySeparator recommendation \<longrightarrow> titleAuthorMatch recommendation = None) \<and>
   (fst (fetchBookCover rt net (parsedTitle recommendation) (authorString recommendation)) =
      Inr cover \<longrightarrow>
      convertAIRecommendationToBook rt cfg net recommendation index originalQuery =
        Inr \<lparr>id' = js ''ai-rec-'' @ decimal index,
             title = parsedTitle recommendation,
             author = parsedAuthor recommendation,
             subjects = [js ''AI recommended for: '' @ originalQuery],
             source = AiRecommendation,
             isAIRecommendation = True,
             downloadUrl = fst (searchGoogleForPDF cfg rt net (parsedTitle recommendation)
                                  (authorString recommendation)),
             coverUrl = cover\<rparr>) \<and>
   (convertAIRecommendationToBook rt cfg net recommendation index originalQuery = Inr book \<longrightarrow>
      title book = parsedTitle recommendation \<and> author book = parsedAuthor recommendation)"
proof -
  have c1: "titleAuthorMatch recommendation = Some (g1, g2) \<longrightarrow>
      (\<exists>w1 b y w2.
         recommendation = g1 @ w1 @ [b, y] @ w2 @ g2 \<and>
         \<not> list_ex isLineTerminator g1 \<and> w1 \<noteq> [] \<and> list_all isWhiteSpace w1 \<and> isBy b y \<and>
         w2 \<noteq> [] \<and> list_all isWhiteSpace w2 \<and> \<not> list_ex isLineTerminator g2 \<and>
         parsedTitle recommendation = trim (g1 @ w1) \<and>
         parsedAuthor recommendation = map trim (split 0x2C (w2 @ g2)))"
  proof
    assume "titleAuthorMatch recommendation = Some (g1, g2)"
    from match_decomposition [OF this]
    show "\<exists>w1 b y w2.
         recommendation = g1 @ w1 @ [b, y] @ w2 @ g2 \<and>
         \<not> list_ex isLineTerminator g1 \<and> w1 \<noteq> [] \<and> list_all isWhiteSpace w1 \<and> isBy b y \<and>
         w2 \<noteq> [] \<and> list_all isWhiteSpace w2 \<and> \<not> list_ex isLineTerminator g2 \<and>
         parsedTitle recommendation = trim (g1 @ w1) \<and>
         parsedAuthor recommendation = map trim (split 0x2C (w2 @ g2))"
      by blast
  qed
  have c2: "recommendation = before @ v1 @ [c, d] @ v2 @ after \<and>
    \<not> list_ex isLineTerminator before \<and> v1 \<noteq> [] \<and> list_all isWhiteSpace v1 \<and> isBy c d \<and>
    v2 \<noteq> [] \<and> list_all isWhiteSpace v2 \<and> \<not> list_ex isLineTerminator after \<longrightarrow>
      (\<exists>h1 u1 p q u2 h2.
         titleAuthorMatch recommendation = Some (h1, h2) \<and> length h1 \<le> length before \<and>
         recommendation = h1 @ u1 @ [p, q] @ u2 @ h2 \<and>
         \<not> list_ex isLineTerminator h1 \<and> u1 \<noteq> [] \<and> list_all isWhiteSpace u1 \<and> isBy p q \<and>
         u2 \<noteq> [] \<and> list_all isWhiteSpace u2 \<and> \<not> list_ex isLineTerminator h2 \<and>
         parsedTitle recommendation = trim h1 \<and>
         parsedAuthor recommendation = map trim (split 0x2C h2))"
  proof
    assume a: "recommendation = before @ v1 @ [c, d] @ v2 @ after \<and>
      \<not> list_ex isLineTerminator before \<and> v1 \<noteq> [] \<and> list_all isWhiteSpace v1 \<and> isBy c d \<and>
      v2 \<noteq> [] \<and> list_all isWhiteSpace v2 \<and> \<not> list_ex isLineTerminator after"
    then have "separatorTail (v1 @ [c, d] @ v2 @ after) = Some (dropWhile isWhiteSpace after)"
      by (intro separatorTail_complete) simp_all
    then have "separatorTail (v1 @ [c, d] @ v2 @ after) \<noteq> None"
      by simp
    from lazyTitle_complete [OF _ this, of before "[]"] a
    obtain h1 h2 where
      h: "titleAuthorMatch recommendation = Some (h1, h2)" "length h1 \<le> length before"
      by (auto simp: titleAuthorMatch_def)
    from match_decomposition [OF h(1)] h
    show "\<exists>h1 u1 p q u2 h2.
         titleAuthorMatch recommendation = Some (h1, h2) \<and> length h1 \<le> length before \<and>
         recommendation = h1 @ u1 @ [p, q] @ u2 @ h2 \<and>
         \<not> list_ex isLineTerminator h1 \<and> u1 \<noteq> [] \<and> list_all isWhiteSpace u1 \<and> isBy p q \<and>
         u2 \<noteq> [] \<and> list_all isWhiteSpace u2 \<and> \<not> list_ex isLineTerminator h2 \<and>
         parsedTitle recommendation = trim h1 \<and>
         parsedAuthor recommendation = map trim (split 0x2C h2)"
      by blast
  qed
  have c3: "(\<forall>t1 s1 k l s2 t2.
       recommendation = t1 @ s1 @ [k, l] @ s2 @ t2 \<and> s1 \<noteq> [] \<and> list_all isWhiteSpace s1 \<and>
       isBy k l \<and> s2 \<noteq> [] \<and> list_all isWhiteSpace s2 \<longrightarrow>
         list_ex isLineTerminator t1 \<or> list_ex isLineTerminator t2) \<longrightarrow>
      titleAuthorMatch recommendation = None \<and>
      parsedTitle recommendation = recommendation \<and>
      parsedAuthor recommendation = [js ''Unknown Author'']"
  proof
    assume n: "\<forall>t1 s1 k l s2 t2.
       recommendation = t1 @ s1 @ [k, l] @ s2 @ t2 \<and> s1 \<noteq> [] \<and> list_all isWhiteSpace s1 \<and>
       isBy k l \<and> s2 \<noteq> [] \<and> list_all isWhiteSpace s2 \<longrightarrow>
         list_ex isLineTerminator t1 \<or> list_ex isLineTerminator t2"
    have "titleAuthorMatch recommendation = None"
    proof (cases "titleAuthorMatch recommendation")
      case None
      then show ?thesis .
    next
      case (Some g)
      then have "titleAuthorMatch recommendation = Some (fst g, snd g)"
        by simp
      from match_decomposition [OF this] n show ?thesis
        by blast
    qed
    then show "titleAuthorMatch recommendation = None \<and>
        parsedTitle recommendation = recommendation \<and>
        parsedAuthor recommendation = [js ''Unknown Author'']"
      by (simp add: no_match)
  qed
  have c4: "titleAuthorMatch recommendation = None \<longrightarrow>
      parsedTitle recommendation = recommendation \<and>
      parsedAuthor recommendation = [js ''Unknown Author'']"
    by (simp add: no_match)
  have c5: "\<not> hasBySeparator recommendation \<longrightarrow> titleAuthorMatch recommendation = None"
    using match_hasBySeparator [of recommendation]
    by (cases "titleAuthorMatch recommendation") auto
  have c6: "fst (fetchBookCover rt net (parsedTitle recommendation) (authorString recommendation)) =
      Inr cover \<longrightarrow>
      convertAIRecommendationToBook rt cfg net recommendation index originalQuery =
        Inr \<lparr>id' = js ''ai-rec-'' @ decimal index,
             title = parsedTitle recommendation,
             author = parsedAuthor recommendation,
             subjects = [js ''AI recommended for: '' @ originalQuery],
             source = AiRecommendation,
             isAIRecommendation = True,
             downloadUrl = fst (searchGoogleForPDF cfg rt net (parsedTitle recommendation)
                                  (authorString recommendation)),
             coverUrl = cover\<rparr>"
    by (simp add: convertAIRecommendationToBook_def Let_def)
  have c7: "convertAIRecommendationToBook rt cfg net recommendation index originalQuery = Inr book \<longrightarrow>
      title book = parsedTitle recommendation \<and> author book = parsedAuthor recommendation"
    by (auto simp: convertAIRecommendationToBook_def Let_def split: sum.splits)
  show ?thesis
    by (intro conjI c1 c2 c3 c4 c5 c6 c7)
qed

theorem title_author_parsing_witness:
  "titleAuthorMatch (js ''Dune by Frank Herbert'') = Some (js ''Dune'', js ''Frank Herbert'') \<and>
   parsedTitle (js ''Dune by Frank Herbert'') = js ''Dune'' \<and>
   parsedAuthor (js ''Dune by Frank Herbert'') = [js ''Frank Herbert''] \<and>
   parsedAuthor (js ''X by A, B'') = [js ''A'', js ''B''] \<and>
   titleAuthorMatch (js ''Some Book'') = None \<and>
   parsedTitle (js ''Some Book'') = js ''Some Book'' \<and>
   parsedAuthor (js ''Some Book'') = [js ''Unknown Author''] \<and>
   parsedTitle (js ''A by B'' @ [0x0A] @ js ''C'') = js ''A by B'' @ [0x0A] @ js ''C'' \<and>
   parsedAuthor (js ''A by B'' @ [0x0A] @ js ''C'') = [js ''Unknown Author''] \<and>
   convertAIRecommendationToBook exampleRuntime credentials netLibrary (js ''Dune by Frank Herbert'')
     0 (js ''classics'') = Inr bookDune \<and>
   title bookDune = js ''Dune'' \<and>
   author bookDune = [js ''Frank Herbert'']"
proof -
  note t = title_author_parsing
  have m1: "titleAuthorMatch (js ''Dune by Frank Herbert'') = Some (js ''Dune'', js ''Frank Herbert'')"
    by (simp add: match_eval string_eval)
  from t [THEN conjunct1, rule_format, OF m1] obtain w1 w2 where
    d: "list_all isWhiteSpace w1" "list_all isWhiteSpace w2"
       "parsedTitle (js ''Dune by Frank Herbert'') = trim (js ''Dune'' @ w1)"
       "parsedAuthor (js ''Dune by Frank Herbert'') = map trim (split 0x2C (w2 @ js ''Frank Herbert''))"
    by blast
  have a1: "parsedTitle (js ''Dune by Frank Herbert'') = js ''Dune''"
    by (simp only: d(3) trim_ws_suffix [OF d(1)]) (simp add: string_eval)
  have a2: "parsedAuthor (js ''Dune by Frank Herbert'') = [js ''Frank Herbert'']"
    by (simp only: d(4) split_ws_prefix [OF d(2) comma_not_ws]) (simp add: string_eval)
  have h2: "js ''X by A, B'' = js ''X'' @ js '' '' @ [0x62, 0x79] @ js '' '' @ js ''A, B'' \<and>
            \<not> list_ex isLineTerminator (js ''X'') \<and> js '' '' \<noteq> [] \<and>
            list_all isWhiteSpace (js '' '') \<and> isBy 0x62 0x79 \<and> js '' '' \<noteq> [] \<and>
            list_all isWhiteSpace (js '' '') \<and> \<not> list_ex isLineTerminator (js ''A, B'')"
    by (simp add: string_eval isBy_def)
  from t [THEN conjunct2, THEN conjunct1, rule_format, OF h2] obtain h1 h2 where
    x: "length h1 \<le> length (js ''X'')" "titleAuthorMatch (js ''X by A, B'') = Some (h1, h2)"
       "parsedAuthor (js ''X by A, B'') = map trim (split 0x2C h2)"
    by blast
  have "titleAuthorMatch (js ''X by A, B'') = Some (js ''X'', js ''A, B'')"
    by (simp add: match_eval string_eval)
  with x have "h2 = js ''A, B''"
    by simp
  with x(3) have a3: "parsedAuthor (js ''X by A, B'') = [js ''A'', js ''B'']"
    by (simp add: string_eval)
  have h3: "\<not> hasBySeparator (js ''Some Book'')"
    by (simp add: string_eval isBy_def)
  note c5 = t [THEN conjunct2, THEN conjunct2, THEN conjunct2, THEN conjunct2]
  note m3 = c5 [THEN conjunct1, rule_format, OF h3]
  note a5 = t [THEN conjunct2, THEN conjunct2, THEN conjunct2, THEN conjunct1, rule_format, OF m3]
  have n: "titleAuthorMatch (js ''A by B'' @ [0x0A] @ js ''C'') = None"
    by (simp add: match_eval string_eval)
  have "\<forall>t1 s1 k l s2 t2.
       js ''A by B'' @ [0x0A] @ js ''C'' = t1 @ s1 @ [k, l] @ s2 @ t2 \<and> s1 \<noteq> [] \<and>
       list_all isWhiteSpace s1 \<and> isBy k l \<and> s2 \<noteq> [] \<and> list_all isWhiteSpace s2 \<longrightarrow>
         list_ex isLineTerminator t1 \<or> list_ex isLineTerminator t2"
  proof (intro allI impI)
    fix t1 s1 k l s2 t2
    assume f: "js ''A by B'' @ [0x0A] @ js ''C'' = t1 @ s1 @ [k, l] @ s2 @ t2 \<and> s1 \<noteq> [] \<and>
       list_all isWhiteSpace s1 \<and> isBy k l \<and> s2 \<noteq> [] \<and> list_all isWhiteSpace s2"
    show "list_ex isLineTerminator t1 \<or> list_ex isLineTerminator t2"
    proof (rule ccontr)
      assume "\<not> (list_ex isLineTerminator t1 \<or> list_ex isLineTerminator t2)"
      with f have "js ''A by B'' @ [0x0A] @ js ''C'' = t1 @ s1 @ [k, l] @ s2 @ t2 \<and>
          \<not> list_ex isLineTerminator t1 \<and> s1 \<noteq> [] \<and> list_all isWhiteSpace s1 \<and> isBy k l \<and>
          s2 \<noteq> [] \<and> list_all isWhiteSpace s2 \<and> \<not> list_ex isLineTerminator t2"
        by simp
      from t [THEN conjunct2, THEN conjunct1, rule_format, OF this] n show False
        by auto
    qed
  qed
  note a6 = t [THEN conjunct2, THEN conjunct2, THEN conjunct1, THEN mp, OF this]
  have "fst (fetchBookCover exampleRuntime netLibrary (parsedTitle (js ''Dune by Frank Herbert''))
               (authorString (js ''Dune by Frank Herbert''))) =
          Inr (js ''https://covers.openlibrary.org/b/id/42-L.jpg'')"
    by (rule cover_library)
  from c5 [THEN conjunct2, THEN conjunct1, rule_format, OF this,
      of credentials 0 "js ''classics''"]
  have a7: "convertAIRecommendationToBook exampleRuntime credentials netLibrary
              (js ''Dune by Frank Herbert'') 0 (js ''classics'') = Inr bookDune"
    by (simp add: parse_dune pdf_dune bookDune_def example_ids)
  note a8 = c5 [THEN conjunct2, THEN conjunct2, rule_format, OF a7]
  from m1 a1 a2 a3 m3 a5 a6 a7 a8 show ?thesis
    by simp
qed

theorem title_author_parsing_counterexample:
  "js ''Dune by Frank Herbert'' @ [0x0A] =
     js ''Dune'' @ js '' '' @ js ''by'' @ js '' '' @ js ''Frank Herbert'' @ [0x0A] \<and>
   hasBySeparator (js ''Dune by Frank Herbert'' @ [0x0A]) \<and>
   parsedTitle (js ''Dune by Frank Herbert'' @ [0x0A]) = js ''Dune by Frank Herbert'' @ [0x0A] \<and>
   parsedTitle (js ''Dune by Frank Herbert'' @ [0x0A]) \<noteq> js ''Dune'' \<and>
   parsedAuthor (js ''Dune by Frank Herbert'' @ [0x0A]) = [js ''Unknown Author''] \<and>
   parsedAuthor (js ''Dune by Frank Herbert'' @ [0x0A]) \<noteq> [js ''Frank Herbert''] \<and>
   convertAIRecommendationToBook exampleRuntime credentials netLibrary
     (js ''Dune by Frank Herbert'' @ [0x0A]) 0 (js ''classics'') =
     Inr (bookDune\<lparr>title := js ''Dune by Frank Herbert'' @ [0x0A],
                   author := [js ''Unknown Author''], downloadUrl := None\<rparr>)"
proof -
  have n: "titleAuthorMatch (js ''Dune by Frank Herbert'' @ [0x0A]) = None"
    by (simp add: match_eval string_eval)
  have f: "js ''Dune by Frank Herbert'' @ [0x0A] =
     js ''Dune'' @ js '' '' @ js ''by'' @ js '' '' @ js ''Frank Herbert'' @ [0x0A]"
    by (simp add: js_def)
  have s: "hasBySeparator (js ''Dune by Frank Herbert'' @ [0x0A])"
    by (simp add: string_eval isBy_def)
  have pt: "parsedTitle (js ''Dune by Frank Herbert'' @ [0x0A]) = js ''Dune by Frank Herbert'' @ [0x0A]"
    by (rule no_match [OF n])
  have pn: "parsedTitle (js ''Dune by Frank Herbert'' @ [0x0A]) \<noteq> js ''Dune''"
    by (simp only: pt) (simp add: js_def)
  have pa: "parsedAuthor (js ''Dune by Frank Herbert'' @ [0x0A]) = [js ''Unknown Author'']"
    by (rule no_match [OF n])
  have an: "parsedAuthor (js ''Dune by Frank Herbert'' @ [0x0A]) \<noteq> [js ''Frank Herbert'']"
    by (simp only: pa) (simp add: js_def)
  have c: "convertAIRecommendationToBook exampleRuntime credentials netLibrary
     (js ''Dune by Frank Herbert'' @ [0x0A]) 0 (js ''classics'') =
     Inr (bookDune\<lparr>title := js ''Dune by Frank Herbert'' @ [0x0A],
                   author := [js ''Unknown Author''], downloadUrl := None\<rparr>)"
    by (simp add: convertAIRecommendationToBook_def no_match [OF n] pdf_newline cover_library
        bookDune_def example_ids)
  show ?thesis
    by (intro conjI f s pt pn pa an c)
qed

end
